theory Spec2Isabelle
  imports Complex_Main "HOL-Library.AList" "HOL-Library.Multiset"
begin

section \<open>A shallow embedding of scanner.py\<close>

subsection \<open>Data\<close>

text \<open>
  \<^verbatim>\<open>COMMON_PORTS\<close> is a dict literal; it is kept as an association list in the order
  of the literal.
\<close>

definition COMMON_PORTS :: "(int \<times> string) list" where
  "COMMON_PORTS =
     [(20, ''FTP Data''), (21, ''FTP Control''), (22, ''SSH''), (23, ''Telnet''),
      (25, ''SMTP''), (53, ''DNS''), (80, ''HTTP''), (443, ''HTTPS''),
      (3306, ''MySQL''), (5432, ''PostgreSQL''), (27017, ''MongoDB'')]"

text \<open>\<^verbatim>\<open>d.get(key, default)\<close> on a dict.\<close>

definition dict_get :: "('k \<times> 'v) list \<Rightarrow> 'k \<Rightarrow> 'v \<Rightarrow> 'v" where
  "dict_get d k dflt = (case map_of d k of None \<Rightarrow> dflt | Some v \<Rightarrow> v)"

text \<open>
  The values stored in \<^verbatim>\<open>results\<close> are dict literals of three shapes:
  \<^verbatim>\<open>{"status": "open", "service": s}\<close>, \<^verbatim>\<open>{"status": "closed"}\<close> and
  \<^verbatim>\<open>{"status": "error", "error": msg}\<close>. They are a tagged union; \<open>status\<close> is the
  value under the key \<^verbatim>\<open>"status"\<close>.
\<close>

datatype entry = EntryOpen string | EntryClosed | EntryError string

fun status :: "entry \<Rightarrow> string" where
  "status (EntryOpen service) = ''open''"
| "status EntryClosed = ''closed''"
| "status (EntryError msg) = ''error''"

text \<open>
  \<^verbatim>\<open>results\<close> is a dict keyed by port. A Python dict keeps insertion order and an
  assignment to a key that is present replaces the value in place, which is what
  \<open>AList.update\<close> does.
\<close>

type_synonym results = "(int \<times> entry) list"

text \<open>
  What an awaited call can raise. \<open>OtherException\<close> is any other subclass of
  \<^verbatim>\<open>Exception\<close>, with the text \<^verbatim>\<open>str(e)\<close>; \<open>CancelledError\<close> derives from
  \<^verbatim>\<open>BaseException\<close> only, so \<^verbatim>\<open>except Exception\<close> does not catch it.
\<close>

datatype exn = TimeoutError | ConnectionRefusedError | OtherException string | CancelledError

text \<open>
  How a call of \<^verbatim>\<open>socket.gethostbyname\<close> ends: it returns an address, or it raises
  \<^verbatim>\<open>socket.gaierror\<close>, or it raises something else (\<^verbatim>\<open>UnicodeError\<close> for a name
  with an empty or too long label, for one).
\<close>

datatype lookup = Found string | Gaierror | LookupRaised exn

text \<open>
  The world outside the program: whether \<^verbatim>\<open>ipaddress.ip_address(host)\<close> accepts the
  string, how a call of \<^verbatim>\<open>socket.gethostbyname\<close> ends, what awaiting the connection within the timeout raises
  (\<open>None\<close> when it connects), what closing the writer raises, how long the probe of a
  port takes to finish (the tasks of a chunk finish in the order of this latency), and
  the text of the elapsed seconds printed at the end.
\<close>

record env =
  ip_address :: "string \<Rightarrow> bool"
  gethostbyname :: "string \<Rightarrow> lookup"
  open_connection :: "string \<Rightarrow> int \<Rightarrow> real \<Rightarrow> exn option"
  wait_closed :: "string \<Rightarrow> int \<Rightarrow> exn option"
  latency :: "string \<Rightarrow> int \<Rightarrow> nat"
  elapsed :: string

text \<open>
  What the program does that can be observed: lines printed, the prompt of
  \<^verbatim>\<open>input\<close>, a name resolution, a task created for
  \<^verbatim>\<open>scan_port(host, p, results)\<close> with the timeout the call binds, a task
  finished, a file opened for writing and a string written to it.
\<close>

datatype event =
    Print string
  | Prompt string
  | Resolve string
  | Launch string int real
  | Done int
  | OpenW string
  | Write string string

subsection \<open>Text\<close>

fun digits :: "nat \<Rightarrow> string" where
  "digits n = (if n < 10 then [char_of (48 + n)]
               else digits (n div 10) @ [char_of (48 + n mod 10)])"

declare digits.simps [simp del]

definition str :: "int \<Rightarrow> string" where
  "str i = (if i < 0 then CHR ''-'' # digits (nat (- i)) else digits (nat i))"

text \<open>The format specification \<^verbatim>\<open><n\<close>: left aligned, padded with spaces to width n.\<close>

definition ljust :: "nat \<Rightarrow> string \<Rightarrow> string" where
  "ljust n s = s @ replicate (n - length s) CHR '' ''"

definition newline :: char where
  "newline = CHR 0x0A"

text \<open>
  The characters \<^verbatim>\<open>str.strip()\<close> removes, among the code points below 256: those for
  which \<^verbatim>\<open>str.isspace()\<close> holds.
\<close>

definition is_space :: "char \<Rightarrow> bool" where
  "is_space c =
     (c \<in> set [CHR '' '', CHR 0x09, CHR 0x0A, CHR 0x0B, CHR 0x0C, CHR 0x0D,
               CHR 0x1C, CHR 0x1D, CHR 0x1E, CHR 0x1F, CHR 0x85, CHR 0xA0])"

definition strip :: "string \<Rightarrow> string" where
  "strip s = rev (dropWhile is_space (rev (dropWhile is_space s)))"

definition lower :: "string \<Rightarrow> string" where
  "lower s = map (\<lambda>c. if 65 \<le> (of_char c :: nat) \<and> (of_char c :: nat) \<le> 90
                       then char_of ((of_char c :: nat) + 32) else c) s"

subsection \<open>scan\_port\<close>

text \<open>The default of the parameter \<^verbatim>\<open>timeout\<close> of \<^verbatim>\<open>scan_port\<close>.\<close>

definition scan_port_timeout_default :: real where
  "scan_port_timeout_default = 1"

text \<open>
  The two \<^verbatim>\<open>except\<close> clauses of \<^verbatim>\<open>scan_port\<close>, in their order. The result is the
  dict after the handler and the exception that leaves the function, if any.
\<close>

fun scan_port_except :: "exn \<Rightarrow> int \<Rightarrow> results \<Rightarrow> results \<times> exn option" where
  "scan_port_except TimeoutError port results =
     (AList.update port EntryClosed results, None)"
| "scan_port_except ConnectionRefusedError port results =
     (AList.update port EntryClosed results, None)"
| "scan_port_except (OtherException msg) port results =
     (AList.update port (EntryError msg) results, None)"
| "scan_port_except CancelledError port results = (results, Some CancelledError)"

definition scan_port :: "env \<Rightarrow> string \<Rightarrow> int \<Rightarrow> results \<Rightarrow> real \<Rightarrow> results \<times> exn option" where
  "scan_port e host port results timeout =
     (case open_connection e host port timeout of
        Some x \<Rightarrow> scan_port_except x port results
      | None \<Rightarrow>
          (let results1 =
                 AList.update port (EntryOpen (dict_get COMMON_PORTS port ''Unknown'')) results
           in case wait_closed e host port of
                Some x \<Rightarrow> scan_port_except x port results1
              | None \<Rightarrow> (results1, None)))"

subsection \<open>scan\_ports\<close>

text \<open>
  \<^verbatim>\<open>range(start, stop, step)\<close>: a step of zero raises \<^verbatim>\<open>ValueError\<close> (here
  \<open>None\<close>); otherwise the sequence has the length Python computes for it and the
  elements \<open>start + i * step\<close>.
\<close>

definition range_len :: "int \<Rightarrow> int \<Rightarrow> int \<Rightarrow> nat" where
  "range_len start stop step =
     (if 0 < step \<and> start < stop then nat ((stop - start - 1) div step + 1)
      else if step < 0 \<and> stop < start then nat ((start - stop - 1) div (- step) + 1)
      else 0)"

definition py_range :: "int \<Rightarrow> int \<Rightarrow> int \<Rightarrow> int list option" where
  "py_range start stop step =
     (if step = 0 then None
      else Some (map (\<lambda>i. start + int i * step) [0..<range_len start stop step]))"

text \<open>
  The state of one run of \<^verbatim>\<open>scan_ports\<close>: the local dict \<^verbatim>\<open>results\<close>, what has
  been observed so far, the exception that left the coroutine and the value returned.
\<close>

record scan_state =
  st_results :: results
  st_log :: "event list"
  st_raised :: "exn option"
  st_retval :: "nat option"

definition emit :: "event list \<Rightarrow> scan_state \<Rightarrow> scan_state" where
  "emit evs st = st\<lparr>st_log := st_log st @ evs\<rparr>"

text \<open>
  One task of \<^verbatim>\<open>asyncio.as_completed(tasks)\<close> finishing: the body of
  \<^verbatim>\<open>scan_port(host, p, results)\<close> has run on the shared dict, with the default
  timeout since the call passes none. An exception that leaves the task is raised by
  \<^verbatim>\<open>await coro\<close> and ends the run.
\<close>

definition await_task :: "env \<Rightarrow> string \<Rightarrow> int \<Rightarrow> scan_state \<Rightarrow> scan_state" where
  "await_task e host p st =
     (if st_raised st \<noteq> None then st
      else case scan_port e host p (st_results st) scan_port_timeout_default of
             (results', None) \<Rightarrow> emit [Done p] (st\<lparr>st_results := results'\<rparr>)
           | (results', Some x) \<Rightarrow> st\<lparr>st_results := results', st_raised := Some x\<rparr>)"

text \<open>The ports of the chunk that starts at \<open>port\<close>: \<^verbatim>\<open>range(port, chunk_end)\<close>.\<close>

definition chunk_ports :: "int \<Rightarrow> int \<Rightarrow> int \<Rightarrow> int list" where
  "chunk_ports chunk_size end_port port =
     (let chunk_end = min (port + chunk_size) (end_port + 1) in [port..chunk_end - 1])"

text \<open>
  The order in which \<^verbatim>\<open>asyncio.as_completed(tasks)\<close> yields the tasks of a chunk: by
  the time each probe takes, tasks of equal latency in the order of their creation.
\<close>

definition finish_order :: "env \<Rightarrow> string \<Rightarrow> int list \<Rightarrow> int list" where
  "finish_order e host tasks = sort_key (latency e host) tasks"

text \<open>
  The body of the outer loop: a task is created for every port of the chunk, then all
  of them are awaited in the order they finish, then \<^verbatim>\<open>tasks\<close> is cleared.
\<close>

definition scan_chunk :: "env \<Rightarrow> string \<Rightarrow> int \<Rightarrow> int \<Rightarrow> int \<Rightarrow> scan_state \<Rightarrow> scan_state" where
  "scan_chunk e host chunk_size end_port port st =
     (if st_raised st \<noteq> None then st
      else let tasks = chunk_ports chunk_size end_port port;
               st1 = emit (map (\<lambda>p. Launch host p scan_port_timeout_default) tasks) st
           in fold (await_task e host) (finish_order e host tasks) st1)"

text \<open>The ports printed in the table: the sorted keys whose status is open.\<close>

definition open_ports :: "results \<Rightarrow> int list" where
  "open_ports results =
     filter (\<lambda>port. case map_of results port of
                       Some result \<Rightarrow> status result = ''open''
                     | None \<Rightarrow> False)
       (sort (map fst results))"

definition table_row :: "results \<Rightarrow> int \<Rightarrow> string" where
  "table_row results port =
     (let service = (case map_of results port of
                       Some (EntryOpen s) \<Rightarrow> s
                     | _ \<Rightarrow> ''Unknown'')
      in ljust 10 (str port) @ '' '' @ ljust 10 ''OPEN'' @ '' '' @ ljust 20 service)"

text \<open>What \<^verbatim>\<open>scan_ports\<close> prints after the loop.\<close>

definition report_lines :: "env \<Rightarrow> results \<Rightarrow> event list" where
  "report_lines e results =
     [Print (newline # ''Scan Results:''),
      Print (replicate 60 CHR ''-''),
      Print (ljust 10 ''Port'' @ '' '' @ ljust 10 ''Status'' @ '' '' @ ljust 20 ''Service''),
      Print (replicate 60 CHR ''-'')]
     @ map (\<lambda>port. Print (table_row results port)) (open_ports results)
     @ [Print (newline # ''Scan Summary:''),
        Print (''Total ports scanned: '' @ str (int (length results))),
        Print (''Open ports found: '' @ str (int (length (open_ports results)))),
        Print (''Scan completed in '' @ elapsed e @ '' seconds.'')]"

definition report :: "env \<Rightarrow> scan_state \<Rightarrow> scan_state" where
  "report e st =
     (emit (report_lines e (st_results st)) st)\<lparr>st_retval := Some (length (st_results st))\<rparr>"

text \<open>The default of the parameter \<^verbatim>\<open>start_from_port\<close> of \<^verbatim>\<open>scan_ports\<close>.\<close>

definition start_from_port_default :: int where
  "start_from_port_default = 0"

definition initial_state :: scan_state where
  "initial_state = \<lparr>st_results = [], st_log = [], st_raised = None, st_retval = None\<rparr>"

text \<open>
  The loop over the chunks and what follows it, for the address \<open>host\<close> that the
  resolution left.
\<close>

definition starting_line :: "string \<Rightarrow> int \<Rightarrow> int \<Rightarrow> event" where
  "starting_line host start_port end_port =
     Print (newline # ''Starting port scan on '' @ host @ '' from port ''
              @ str start_port @ '' to '' @ str end_port @ ''...'')"

definition scan_loop :: "env \<Rightarrow> string \<Rightarrow> int \<Rightarrow> int \<Rightarrow> int \<Rightarrow> scan_state \<Rightarrow> scan_state" where
  "scan_loop e host start_port end_port start_from_port st =
     (let st1 = emit [starting_line host start_port end_port] st;
          chunk_size = min 1000 (end_port - start_from_port + 1)
      in case py_range start_from_port (end_port + 1) chunk_size of
           None \<Rightarrow> st1\<lparr>st_raised := Some (OtherException ''range() arg 3 must not be zero'')\<rparr>
         | Some starts \<Rightarrow>
             (let st2 = fold (scan_chunk e host chunk_size end_port) starts st1
              in if st_raised st2 \<noteq> None then st2 else report e st2))"

text \<open>
  The first \<^verbatim>\<open>try\<close> of \<^verbatim>\<open>scan_ports\<close>: a string \<^verbatim>\<open>ipaddress.ip_address\<close> accepts
  is kept and nothing is looked up; any other string is given to
  \<^verbatim>\<open>socket.gethostbyname\<close>. The result is what was observed and how the lookup
  ended. Only \<^verbatim>\<open>socket.gaierror\<close> is caught: anything else the lookup raises leaves
  \<^verbatim>\<open>scan_ports\<close>.
\<close>

definition resolve :: "env \<Rightarrow> string \<Rightarrow> event list \<times> lookup" where
  "resolve e host =
     (if ip_address e host then ([], Found host)
      else ([Resolve host], gethostbyname e host))"

definition scan_ports :: "env \<Rightarrow> string \<Rightarrow> int \<Rightarrow> int \<Rightarrow> int \<Rightarrow> scan_state" where
  "scan_ports e host start_port end_port start_from_port =
     (case resolve e host of
        (evs, Gaierror) \<Rightarrow>
          (emit (evs @ [Print (''Could not resolve hostname: '' @ host)]) initial_state)
          \<lparr>st_retval := Some 0\<rparr>
      | (evs, LookupRaised x) \<Rightarrow> (emit evs initial_state)\<lparr>st_raised := Some x\<rparr>
      | (evs, Found host') \<Rightarrow>
          scan_loop e host' start_port end_port start_from_port (emit evs initial_state))"

text \<open>
  The chunks the loop of \<^verbatim>\<open>scan_ports\<close> goes through, in its order, and what one
  chunk adds to what is observed when no task raises.
\<close>

definition chunks :: "int \<Rightarrow> int \<Rightarrow> int list list" where
  "chunks start_from_port end_port =
     (let chunk_size = min 1000 (end_port - start_from_port + 1)
      in case py_range start_from_port (end_port + 1) chunk_size of
           None \<Rightarrow> []
         | Some starts \<Rightarrow> map (chunk_ports chunk_size end_port) starts)"

definition chunk_events :: "env \<Rightarrow> string \<Rightarrow> int list \<Rightarrow> event list" where
  "chunk_events e host tasks =
     map (\<lambda>p. Launch host p scan_port_timeout_default) tasks
     @ map Done (finish_order e host tasks)"

text \<open>No awaited call of a probe of this host is cancelled.\<close>

definition never_cancelled :: "env \<Rightarrow> string \<Rightarrow> bool" where
  "never_cancelled e host =
     (\<forall>p. open_connection e host p scan_port_timeout_default \<noteq> Some CancelledError \<and>
          wait_closed e host p \<noteq> Some CancelledError)"

subsection \<open>save\_results\<close>

text \<open>
  \<^verbatim>\<open>save_results\<close> opens the file for writing and writes one string for every item
  of the dict, in the order of the dict.
\<close>

definition save_results :: "results \<Rightarrow> string \<Rightarrow> event list" where
  "save_results results filename =
     OpenW filename #
     map (\<lambda>(port, data). Write filename (''Port '' @ str port @ '': '' @ status data @ [newline]))
       results"

subsection \<open>main\<close>

text \<open>The namespace \<^verbatim>\<open>parser.parse_args()\<close> returns.\<close>

record args =
  arg_host :: string
  arg_start_port :: int
  arg_end_port :: int
  arg_output :: "string option"
  arg_timeout :: real
  arg_common :: bool

text \<open>\<^verbatim>\<open>min\<close> and \<^verbatim>\<open>max\<close> of a list; \<open>None\<close> is the \<^verbatim>\<open>ValueError\<close> on an empty one.\<close>

definition py_min :: "int list \<Rightarrow> int option" where
  "py_min xs = (case xs of [] \<Rightarrow> None | x # r \<Rightarrow> Some (fold min r x))"

definition py_max :: "int list \<Rightarrow> int option" where
  "py_max xs = (case xs of [] \<Rightarrow> None | x # r \<Rightarrow> Some (fold max r x))"

text \<open>The branch \<^verbatim>\<open>if args.common\<close>, which overwrites the two port arguments.\<close>

definition apply_common :: "args \<Rightarrow> args option" where
  "apply_common a =
     (if arg_common a
      then (let ports_to_scan = sort (map fst COMMON_PORTS)
            in case (py_min ports_to_scan, py_max ports_to_scan) of
                 (Some lo, Some hi) \<Rightarrow> Some (a\<lparr>arg_start_port := lo, arg_end_port := hi\<rparr>)
               | _ \<Rightarrow> None)
      else Some a)"

text \<open>
  How a call of \<^verbatim>\<open>asyncio.run(scan_ports(...))\<close> ends. The operator's interrupt is
  given as the number of events of the run after which it arrives: the run is cut
  there and \<^verbatim>\<open>KeyboardInterrupt\<close> is raised in \<^verbatim>\<open>main\<close>. An interrupt that comes
  after the run has ended has no effect on it.
\<close>

datatype run_end = Finished | Interrupted | Raised exn

definition asyncio_run :: "scan_state \<Rightarrow> nat option \<Rightarrow> event list \<times> run_end" where
  "asyncio_run st sigint =
     (let ended = (st_log st, case st_raised st of None \<Rightarrow> Finished | Some x \<Rightarrow> Raised x)
      in case sigint of
           None \<Rightarrow> ended
         | Some k \<Rightarrow> if k < length (st_log st) then (take k (st_log st), Interrupted) else ended)"

text \<open>
  What \<^verbatim>\<open>input\<close> receives at the prompt: a line, or an interrupt. When nothing is
  left to read \<^verbatim>\<open>input\<close> raises \<^verbatim>\<open>EOFError\<close>.
\<close>

datatype keyboard = Line string | CtrlC

datatype exit = Returned | SysExit int | Uncaught exn

definition question :: string where
  "question = newline # ''Do you want to quit (q) or continue (c)? ''"

text \<open>
  The loop \<^verbatim>\<open>while True\<close> of the handler of the first interrupt. \<open>sigint2\<close> is the
  interrupt, if any, during the resumed run.
\<close>

fun prompt_loop :: "env \<Rightarrow> args \<Rightarrow> int \<Rightarrow> nat option \<Rightarrow> keyboard list \<Rightarrow> event list \<times> exit" where
  "prompt_loop e a current_port sigint2 [] =
     ([Prompt question], Uncaught (OtherException ''EOF when reading a line''))"
| "prompt_loop e a current_port sigint2 (CtrlC # rest) =
     ([Prompt question, Print (newline # ''Forced exit.'')], SysExit 1)"
| "prompt_loop e a current_port sigint2 (Line l # rest) =
     (let user_input = lower (strip l) in
      if user_input = ''q'' then ([Prompt question, Print ''Exiting scan.''], SysExit 0)
      else if user_input = ''c'' then
        (case asyncio_run
                (scan_ports e (arg_host a) current_port (arg_end_port a) current_port) sigint2 of
           (evs, Finished) \<Rightarrow>
             ([Prompt question, Print ''Resuming scan...''] @ evs, Returned)
         | (evs, Interrupted) \<Rightarrow>
             ([Prompt question, Print ''Resuming scan...''] @ evs
                @ [Print (newline # ''Forced exit.'')], SysExit 1)
         | (evs, Raised x) \<Rightarrow>
             ([Prompt question, Print ''Resuming scan...''] @ evs, Uncaught x))
      else
        (case prompt_loop e a current_port sigint2 rest of
           (evs, ex) \<Rightarrow>
             ([Prompt question,
               Print ''Invalid input, please enter 'q' to quit or 'c' to continue.''] @ evs,
              ex)))"

text \<open>
  \<^verbatim>\<open>main\<close>, after the arguments are parsed: what is observed and how the process
  ends. \<open>sigint\<close> is the interrupt during the first run, \<open>answers\<close> what the operator
  types at the prompt.
\<close>

definition main :: "env \<Rightarrow> args \<Rightarrow> nat option \<Rightarrow> keyboard list \<Rightarrow> nat option \<Rightarrow> event list \<times> exit" where
  "main e args0 sigint answers sigint2 =
     (case apply_common args0 of
        None \<Rightarrow> ([], Uncaught (OtherException ''min() arg is an empty sequence''))
      | Some a \<Rightarrow>
          if arg_start_port a < 1 \<or> arg_end_port a > 65535
          then ([Print ''Port range must be between 1 and 65535.''], Returned)
          else if arg_start_port a > arg_end_port a
          then ([Print ''Start port must be less than or equal to end port.''], Returned)
          else
            (let current_port = arg_start_port a in
             case asyncio_run
                    (scan_ports e (arg_host a) (arg_start_port a) (arg_end_port a)
                       start_from_port_default) sigint of
               (evs, Finished) \<Rightarrow> (evs, Returned)
             | (evs, Raised x) \<Rightarrow> (evs, Uncaught x)
             | (evs, Interrupted) \<Rightarrow>
                 (case prompt_loop e a current_port sigint2 answers of
                    (evs2, ex) \<Rightarrow>
                      (evs @ [Print (newline # ''Scan interrupted.'')] @ evs2, ex))))"

subsection \<open>Reading what was observed\<close>

text \<open>The ports for which a task was created, in the order of creation.\<close>

definition launched :: "event list \<Rightarrow> int list" where
  "launched evs = concat (map (\<lambda>ev. case ev of Launch h p t \<Rightarrow> [p] | _ \<Rightarrow> []) evs)"

text \<open>The timeouts of the tasks created, in the order of creation.\<close>

definition timeouts :: "event list \<Rightarrow> real list" where
  "timeouts evs = concat (map (\<lambda>ev. case ev of Launch h p t \<Rightarrow> [t] | _ \<Rightarrow> []) evs)"

text \<open>The lines printed, in order.\<close>

definition printed :: "event list \<Rightarrow> string list" where
  "printed evs = concat (map (\<lambda>ev. case ev of Print l \<Rightarrow> [l] | _ \<Rightarrow> []) evs)"

text \<open>What was done to files.\<close>

definition file_events :: "event list \<Rightarrow> event list" where
  "file_events evs =
     filter (\<lambda>ev. case ev of OpenW f \<Rightarrow> True | Write f t \<Rightarrow> True | _ \<Rightarrow> False) evs"

text \<open>In a list, an occurrence of \<open>a\<close> comes before an occurrence of \<open>b\<close>.\<close>

definition before :: "'a \<Rightarrow> 'a \<Rightarrow> 'a list \<Rightarrow> bool" where
  "before a b xs = (\<exists>us vs ws. xs = us @ a # vs @ b # ws)"

subsection \<open>Concrete worlds\<close>

text \<open>The text of the \<^verbatim>\<open>UnicodeError\<close> the lookup of a name with an empty label raises.\<close>

definition idna_error :: string where
  "idna_error = ''encoding with 'idna' codec failed (UnicodeError: label empty or too long)''"

text \<open>
  A host at the literal address 10.0.0.1, also known as example.org, that accepts
  connections on ports 22 and 8080 and refuses every other port. No other name has
  an address, and the name example..com, with its empty label, cannot even be encoded
  for the lookup.
\<close>

definition plain_env :: env where
  "plain_env =
     \<lparr>ip_address = (\<lambda>h. h = ''10.0.0.1''),
      gethostbyname = (\<lambda>h. if h = ''example.org'' then Found ''10.0.0.1''
                           else if h = ''example..com'' then LookupRaised (OtherException idna_error)
                           else Gaierror),
      open_connection = (\<lambda>h p t. if p = 22 \<or> p = 8080 then None
                                   else Some ConnectionRefusedError),
      wait_closed = (\<lambda>h p. None),
      latency = (\<lambda>h p. 0),
      elapsed = ''0.01''\<rparr>"

text \<open>The same host when it resets every connection as soon as it is closed.\<close>

definition reset_env :: env where
  "reset_env =
     plain_env\<lparr>wait_closed := (\<lambda>h p. Some (OtherException ''[Errno 104] Connection reset by peer''))\<rparr>"

text \<open>The same host when closing a connection times out.\<close>

definition close_timeout_env :: env where
  "close_timeout_env = plain_env\<lparr>wait_closed := (\<lambda>h p. Some TimeoutError)\<rparr>"

text \<open>
  The same host when port 2 accepts a connection only after three seconds and every
  other port stays silent.
\<close>

definition slow_env :: env where
  "slow_env =
     plain_env\<lparr>open_connection := (\<lambda>h p t. if p = 2 \<and> 3 \<le> t then None else Some TimeoutError)\<rparr>"

text \<open>Command lines: \<^verbatim>\<open>scanner.py HOST -s S -e E\<close> and variations of it.\<close>

definition cmdline :: "string \<Rightarrow> int \<Rightarrow> int \<Rightarrow> args" where
  "cmdline h s e =
     \<lparr>arg_host = h, arg_start_port = s, arg_end_port = e, arg_output = None,
      arg_timeout = 1, arg_common = False\<rparr>"

section \<open>Properties\<close>

subsection \<open>The probe\<close>

lemma scan_port_except_caught:
  "x \<noteq> CancelledError \<Longrightarrow>
   scan_port_except x port results =
     (AList.update port (case x of OtherException msg \<Rightarrow> EntryError msg | _ \<Rightarrow> EntryClosed)
        results, None)"
  by (cases x) simp_all

text \<open>
  C4, as the code has it. The claim says that a successful connection is recorded as
  Open; in \<^verbatim>\<open>scan_port\<close> the close of the writer is inside the same \<^verbatim>\<open>try\<close>, so
  the entry is Open only when the close succeeds too, and \<^verbatim>\<open>except Exception\<close> lets
  a cancellation through. What holds: when neither awaited call is cancelled, the
  probe raises nothing and leaves exactly one entry for its port, in place:
  Open with the service of the table (or Unknown) when the connection and the close
  both succeed; Closed when the connection attempt, or the close after a connection,
  raises a timeout or a refusal; Error with the text of the exception for any other
  exception of either.
\<close>

theorem scan_port_records:
  assumes "open_connection e host port timeout \<noteq> Some CancelledError"
    and "open_connection e host port timeout = None \<longrightarrow>
         wait_closed e host port \<noteq> Some CancelledError"
  shows "\<exists>entry. scan_port e host port results timeout = (AList.update port entry results, None) \<and>
           (open_connection e host port timeout = None \<and> wait_closed e host port = None \<longrightarrow>
              entry = EntryOpen (dict_get COMMON_PORTS port ''Unknown'')) \<and>
           (open_connection e host port timeout \<in> {Some TimeoutError, Some ConnectionRefusedError} \<longrightarrow>
              entry = EntryClosed) \<and>
           (\<forall>msg. open_connection e host port timeout = Some (OtherException msg) \<longrightarrow>
              entry = EntryError msg) \<and>
           (open_connection e host port timeout = None \<and>
            wait_closed e host port \<in> {Some TimeoutError, Some ConnectionRefusedError} \<longrightarrow>
              entry = EntryClosed) \<and>
           (\<forall>msg. open_connection e host port timeout = None \<and>
                  wait_closed e host port = Some (OtherException msg) \<longrightarrow>
              entry = EntryError msg)"
proof (cases "open_connection e host port timeout")
  case None
  with assms(2) have nc: "wait_closed e host port \<noteq> Some CancelledError" by simp
  show ?thesis
  proof (cases "wait_closed e host port")
    case N2: None
    with None show ?thesis by (simp add: scan_port_def)
  next
    case (Some x)
    with nc have "x \<noteq> CancelledError" by simp
    with None Some show ?thesis
      by (cases x) (simp_all add: scan_port_def)
  qed
next
  case (Some x)
  with assms(1) have "x \<noteq> CancelledError" by simp
  with Some show ?thesis
    by (cases x) (simp_all add: scan_port_def)
qed

theorem scan_port_records_witness:
  "open_connection plain_env ''10.0.0.1'' 22 1 \<noteq> Some CancelledError \<and>
   wait_closed plain_env ''10.0.0.1'' 22 \<noteq> Some CancelledError \<and>
   scan_port plain_env ''10.0.0.1'' 22 [(21, EntryClosed)] 1 =
     ([(21, EntryClosed), (22, EntryOpen ''SSH'')], None)"
proof -
  have h1: "open_connection plain_env ''10.0.0.1'' 22 1 \<noteq> Some CancelledError"
    by (simp add: plain_env_def)
  have h2: "open_connection plain_env ''10.0.0.1'' 22 1 = None \<longrightarrow>
            wait_closed plain_env ''10.0.0.1'' 22 \<noteq> Some CancelledError"
    by (simp add: plain_env_def)
  have c: "open_connection plain_env ''10.0.0.1'' 22 1 = None \<and>
           wait_closed plain_env ''10.0.0.1'' 22 = None"
    by (simp add: plain_env_def)
  from scan_port_records [OF h1 h2, of "[(21, EntryClosed)]"] c
  have "scan_port plain_env ''10.0.0.1'' 22 [(21, EntryClosed)] 1 =
          (AList.update 22 (EntryOpen (dict_get COMMON_PORTS 22 ''Unknown'')) [(21, EntryClosed)], None)"
    by auto
  then have "scan_port plain_env ''10.0.0.1'' 22 [(21, EntryClosed)] 1 =
               ([(21, EntryClosed), (22, EntryOpen ''SSH'')], None)"
    by (simp add: dict_get_def COMMON_PORTS_def)
  moreover have "wait_closed plain_env ''10.0.0.1'' 22 \<noteq> Some CancelledError"
    using c by simp
  ultimately show ?thesis using h1 by blast
qed

text \<open>
  C4 as stated fails: port 22 accepts the connection, the close raises a connection
  reset, and the entry the probe leaves is Error, not Open.
\<close>

theorem scan_port_open_overwritten:
  "open_connection reset_env ''10.0.0.1'' 22 1 = None \<and>
   scan_port reset_env ''10.0.0.1'' 22 [] 1 =
     ([(22, EntryError ''[Errno 104] Connection reset by peer'')], None)"
  by (simp add: scan_port_def reset_env_def plain_env_def)

text \<open>
  C10, as the code has it. When the connection attempt succeeds and closing the writer
  raises an exception that is neither a timeout nor a connection refusal (and is
  caught by \<^verbatim>\<open>except Exception\<close>), the entry recorded as Open for that port is
  overwritten with status error and the text of the exception: an open port is
  reported as Error.
\<close>

theorem scan_port_close_error:
  assumes "open_connection e host port timeout = None"
    and "wait_closed e host port = Some (OtherException msg)"
  shows "scan_port e host port results timeout =
           (AList.update port (EntryError msg) results, None) \<and>
         map_of (fst (scan_port e host port results timeout)) port = Some (EntryError msg) \<and>
         status (EntryError msg) = ''error''"
  using assms by (simp add: scan_port_def update_conv')

theorem scan_port_close_error_witness:
  "open_connection reset_env ''10.0.0.1'' 8080 1 = None \<and>
   wait_closed reset_env ''10.0.0.1'' 8080 =
     Some (OtherException ''[Errno 104] Connection reset by peer'') \<and>
   map_of (fst (scan_port reset_env ''10.0.0.1'' 8080 [(8080, EntryClosed)] 1)) 8080 =
     Some (EntryError ''[Errno 104] Connection reset by peer'')"
proof -
  have h1: "open_connection reset_env ''10.0.0.1'' 8080 1 = None"
    by (simp add: reset_env_def plain_env_def)
  have h2: "wait_closed reset_env ''10.0.0.1'' 8080 =
              Some (OtherException ''[Errno 104] Connection reset by peer'')"
    by (simp add: reset_env_def plain_env_def)
  from scan_port_close_error [OF h1 h2] h1 h2 show ?thesis by blast
qed

text \<open>
  C10 as stated fails for the exceptions the first \<^verbatim>\<open>except\<close> clause catches: the
  connection succeeds, the close raises a timeout, and the entry is overwritten with
  Closed, not Error.
\<close>

theorem scan_port_close_timeout:
  "open_connection close_timeout_env ''10.0.0.1'' 22 1 = None \<and>
   wait_closed close_timeout_env ''10.0.0.1'' 22 = Some TimeoutError \<and>
   scan_port close_timeout_env ''10.0.0.1'' 22 [] 1 = ([(22, EntryClosed)], None)"
  by (simp add: scan_port_def close_timeout_env_def plain_env_def)

subsection \<open>The loop over the chunks\<close>

lemma scan_port_update:
  assumes "never_cancelled e host"
  shows "\<exists>entry. scan_port e host p results scan_port_timeout_default =
           (AList.update p entry results, None)"
proof -
  from assms have a: "open_connection e host p scan_port_timeout_default \<noteq> Some CancelledError"
    and b: "wait_closed e host p \<noteq> Some CancelledError"
    by (simp_all add: never_cancelled_def)
  show ?thesis
  proof (cases "open_connection e host p scan_port_timeout_default")
    case None
    show ?thesis
    proof (cases "wait_closed e host p")
      case N2: None
      with None show ?thesis by (auto simp: scan_port_def)
    next
      case (Some x)
      with b have "x \<noteq> CancelledError" by simp
      with None Some show ?thesis
        by (auto simp: scan_port_def scan_port_except_caught)
    qed
  next
    case (Some x)
    with a have "x \<noteq> CancelledError" by simp
    with Some show ?thesis by (auto simp: scan_port_def scan_port_except_caught)
  qed
qed

lemma await_task_step:
  assumes "never_cancelled e host" and "st_raised st = None"
  shows "\<exists>entry. await_task e host p st =
           st\<lparr>st_results := AList.update p entry (st_results st), st_log := st_log st @ [Done p]\<rparr>"
proof -
  from scan_port_update [OF assms(1)] obtain entry where
    "scan_port e host p (st_results st) scan_port_timeout_default =
       (AList.update p entry (st_results st), None)" by blast
  with assms(2) show ?thesis by (auto simp: await_task_def emit_def)
qed

lemma await_tasks:
  assumes "never_cancelled e host"
  shows "st_raised st = None \<Longrightarrow> distinct ps \<Longrightarrow> set ps \<inter> fst ` set (st_results st) = {} \<Longrightarrow>
         st_raised (fold (await_task e host) ps st) = None \<and>
         st_retval (fold (await_task e host) ps st) = st_retval st \<and>
         st_log (fold (await_task e host) ps st) = st_log st @ map Done ps \<and>
         map fst (st_results (fold (await_task e host) ps st)) = map fst (st_results st) @ ps"
proof (induction ps arbitrary: st)
  case Nil
  then show ?case by simp
next
  case (Cons p ps)
  from await_task_step [OF assms Cons.prems(1)] obtain entry where
    step: "await_task e host p st =
       st\<lparr>st_results := AList.update p entry (st_results st), st_log := st_log st @ [Done p]\<rparr>"
    by blast
  let ?st1 = "await_task e host p st"
  from Cons.prems have notin: "p \<notin> fst ` set (st_results st)" by auto
  have keys1: "map fst (st_results ?st1) = map fst (st_results st) @ [p]"
    using notin by (simp add: step update_keys)
  have r1: "st_raised ?st1 = None" using Cons.prems(1) by (simp add: step)
  have d1: "distinct ps" using Cons.prems(2) by simp
  have "fst ` set (st_results ?st1) = set (map fst (st_results ?st1))" by simp
  also have "\<dots> = insert p (fst ` set (st_results st))" by (simp only: keys1) auto
  finally have k1: "fst ` set (st_results ?st1) = insert p (fst ` set (st_results st))" .
  have i1: "set ps \<inter> fst ` set (st_results ?st1) = {}"
    using Cons.prems(2,3) by (auto simp: k1)
  from Cons.IH [OF r1 d1 i1] show ?case
    by (simp add: keys1) (simp add: step)
qed


lemma scan_chunk_run:
  assumes "never_cancelled e host" and "st_raised st = None"
    and "set (chunk_ports cs end_port port) \<inter> fst ` set (st_results st) = {}"
  shows "st_raised (scan_chunk e host cs end_port port st) = None \<and>
         st_retval (scan_chunk e host cs end_port port st) = st_retval st \<and>
         st_log (scan_chunk e host cs end_port port st) =
           st_log st @ chunk_events e host (chunk_ports cs end_port port) \<and>
         map fst (st_results (scan_chunk e host cs end_port port st)) =
           map fst (st_results st) @ finish_order e host (chunk_ports cs end_port port)"
proof -
  let ?tasks = "chunk_ports cs end_port port"
  let ?st1 = "emit (map (\<lambda>p. Launch host p scan_port_timeout_default) ?tasks) st"
  have d: "distinct ?tasks" by (simp add: chunk_ports_def Let_def)
  have r: "st_raised ?st1 = None" using assms(2) by (simp add: emit_def)
  have dd: "distinct (finish_order e host ?tasks)" using d by (simp add: finish_order_def)
  have ii: "set (finish_order e host ?tasks) \<inter> fst ` set (st_results ?st1) = {}"
    using assms(3) by (simp add: finish_order_def emit_def)
  have eq: "scan_chunk e host cs end_port port st =
              fold (await_task e host) (finish_order e host ?tasks) ?st1"
    using assms(2) by (simp add: scan_chunk_def Let_def finish_order_def)
  from await_tasks [OF assms(1) r dd ii] show ?thesis
    by (simp add: eq chunk_events_def) (simp add: emit_def)
qed

lemma scan_chunks_run:
  assumes "never_cancelled e host"
  shows "st_raised st = None \<Longrightarrow>
         distinct (concat (map (chunk_ports cs end_port) starts)) \<Longrightarrow>
         set (concat (map (chunk_ports cs end_port) starts)) \<inter> fst ` set (st_results st) = {} \<Longrightarrow>
         st_raised (fold (scan_chunk e host cs end_port) starts st) = None \<and>
         st_retval (fold (scan_chunk e host cs end_port) starts st) = st_retval st \<and>
         st_log (fold (scan_chunk e host cs end_port) starts st) =
           st_log st @ concat (map (\<lambda>port. chunk_events e host (chunk_ports cs end_port port)) starts) \<and>
         map fst (st_results (fold (scan_chunk e host cs end_port) starts st)) =
           map fst (st_results st) @
           concat (map (\<lambda>port. finish_order e host (chunk_ports cs end_port port)) starts)"
proof (induction starts arbitrary: st)
  case Nil
  then show ?case by simp
next
  case (Cons port starts)
  let ?st1 = "scan_chunk e host cs end_port port st"
  have i0: "set (chunk_ports cs end_port port) \<inter> fst ` set (st_results st) = {}"
    using Cons.prems(3) by auto
  note one = scan_chunk_run [OF assms Cons.prems(1) i0]
  have r1: "st_raised ?st1 = None" using one by simp
  have d1: "distinct (concat (map (chunk_ports cs end_port) starts))"
    using Cons.prems(2) by simp
  have "fst ` set (st_results ?st1) = set (map fst (st_results ?st1))" by simp
  also have "\<dots> = fst ` set (st_results st) \<union> set (chunk_ports cs end_port port)"
    using one by (simp add: finish_order_def)
  finally have k1: "fst ` set (st_results ?st1) =
                      fst ` set (st_results st) \<union> set (chunk_ports cs end_port port)" .
  have i1: "set (concat (map (chunk_ports cs end_port) starts)) \<inter> fst ` set (st_results ?st1) = {}"
    using Cons.prems(2,3) unfolding k1 by auto
  from Cons.IH [OF r1 d1 i1] one show ?case by simp
qed


lemma py_range_up:
  assumes "0 < cs" and "sf \<le> e"
  shows "py_range sf (e + 1) cs =
           Some (map (\<lambda>i. sf + int i * cs) [0..<Suc (nat ((e - sf) div cs))])"
proof -
  have "0 \<le> (e - sf) div cs" using assms by (simp add: pos_imp_zdiv_nonneg_iff)
  then have "nat ((e - sf) div cs + 1) = Suc (nat ((e - sf) div cs))" by simp
  with assms show ?thesis by (simp add: py_range_def range_len_def)
qed

lemma quotient_bounds:
  assumes "0 < (cs::int)" and "0 \<le> d"
  shows "int (nat (d div cs)) * cs \<le> d" and "d < (int (nat (d div cs)) + 1) * cs"
proof -
  have q: "0 \<le> d div cs" using assms by (simp add: pos_imp_zdiv_nonneg_iff)
  have eq: "d div cs * cs + d mod cs = d" by simp
  have m: "0 \<le> d mod cs" "d mod cs < cs" using assms(1) by simp_all
  from q have iq: "int (nat (d div cs)) = d div cs" by simp
  show "int (nat (d div cs)) * cs \<le> d" using eq m(1) unfolding iq by linarith
  have "(d div cs + 1) * cs = d div cs * cs + cs" by (simp add: algebra_simps)
  then show "d < (int (nat (d div cs)) + 1) * cs" using eq m(2) unfolding iq by linarith
qed

lemma chunk_ports_full:
  assumes "0 < cs" and "sf \<le> e" and "i < nat ((e - sf) div cs)"
  shows "chunk_ports cs e (sf + int i * cs) = [sf + int i * cs .. sf + int i * cs + cs - 1]"
proof -
  have "int i + 1 \<le> int (nat ((e - sf) div cs))" using assms(3) by linarith
  then have "(int i + 1) * cs \<le> int (nat ((e - sf) div cs)) * cs"
    using assms(1) by (simp add: mult_right_mono)
  also have "\<dots> \<le> e - sf" using quotient_bounds(1) [of cs "e - sf"] assms by simp
  finally have "int i * cs + cs \<le> e - sf" by (simp add: algebra_simps)
  then have "min (sf + int i * cs + cs) (e + 1) = sf + int i * cs + cs" by simp
  then show ?thesis by (simp add: chunk_ports_def Let_def)
qed

lemma chunk_ports_last:
  assumes "0 < cs" and "sf \<le> e"
  shows "chunk_ports cs e (sf + int (nat ((e - sf) div cs)) * cs) =
           [sf + int (nat ((e - sf) div cs)) * cs .. e]"
proof -
  have "e - sf < (int (nat ((e - sf) div cs)) + 1) * cs"
    using quotient_bounds(2) [of cs "e - sf"] assms by simp
  then have "e - sf < int (nat ((e - sf) div cs)) * cs + cs" by (simp add: algebra_simps)
  then have "min (sf + int (nat ((e - sf) div cs)) * cs + cs) (e + 1) = e + 1" by simp
  then show ?thesis by (simp add: chunk_ports_def Let_def)
qed

lemma full_chunks_concat:
  assumes "0 < cs" and "sf \<le> e"
  shows "k \<le> nat ((e - sf) div cs) \<Longrightarrow>
         concat (map (\<lambda>i. chunk_ports cs e (sf + int i * cs)) [0..<k]) = [sf .. sf + int k * cs - 1]"
proof (induction k)
  case 0
  then show ?case by simp
next
  case (Suc k)
  then have lt: "k < nat ((e - sf) div cs)" by simp
  have nn: "0 \<le> int k * cs" using assms(1) by simp
  have "concat (map (\<lambda>i. chunk_ports cs e (sf + int i * cs)) [0..<Suc k]) =
          [sf .. sf + int k * cs - 1] @ [sf + int k * cs .. sf + int k * cs + cs - 1]"
    using Suc lt by (simp add: chunk_ports_full [OF assms lt])
  also have "\<dots> = [sf .. sf + int k * cs + cs - 1]"
    using upto_split1 [of sf "sf + int k * cs" "sf + int k * cs + cs - 1"] nn assms(1) by simp
  also have "sf + int k * cs + cs - 1 = sf + int (Suc k) * cs - 1" by (simp add: algebra_simps)
  finally show ?case .
qed

lemma chunks_concat:
  assumes "0 < cs" and "sf \<le> e"
  shows "concat (map (\<lambda>i. chunk_ports cs e (sf + int i * cs)) [0..<Suc (nat ((e - sf) div cs))]) =
           [sf .. e]"
proof -
  let ?q = "nat ((e - sf) div cs)"
  have nn: "0 \<le> int ?q * cs" using assms(1) by simp
  have le: "sf + int ?q * cs \<le> e" using quotient_bounds(1) [of cs "e - sf"] assms by simp
  have "concat (map (\<lambda>i. chunk_ports cs e (sf + int i * cs)) [0..<Suc ?q]) =
          [sf .. sf + int ?q * cs - 1] @ [sf + int ?q * cs .. e]"
    using full_chunks_concat [OF assms, of ?q] chunk_ports_last [OF assms] by simp
  also have "\<dots> = [sf .. e]"
    using upto_split1 [of sf "sf + int ?q * cs" e] nn le by simp
  finally show ?thesis .
qed

lemma chunk_size_pos: "(sf::int) \<le> e \<Longrightarrow> 0 < min 1000 (e - sf + 1)"
  by simp

lemma chunks_eq:
  assumes "sf \<le> e"
  shows "chunks sf e =
           map (\<lambda>i. chunk_ports (min 1000 (e - sf + 1)) e (sf + int i * min 1000 (e - sf + 1)))
             [0..<Suc (nat ((e - sf) div min 1000 (e - sf + 1)))]"
  using py_range_up [OF chunk_size_pos [OF assms] assms]
  by (simp add: chunks_def Let_def comp_def del: upt_Suc)

lemma concat_chunks:
  assumes "sf \<le> e"
  shows "concat (chunks sf e) = [sf .. e]"
  using chunks_concat [OF chunk_size_pos [OF assms] assms]
  by (simp only: chunks_eq [OF assms])

lemma scan_loop_run:
  assumes "never_cancelled e host" and "sf \<le> ep"
    and "st_raised st = None" and "st_results st = []"
  shows "st_raised (scan_loop e host s ep sf st) = None \<and>
         map fst (st_results (scan_loop e host s ep sf st)) =
           concat (map (finish_order e host) (chunks sf ep)) \<and>
         st_retval (scan_loop e host s ep sf st) =
           Some (length (st_results (scan_loop e host s ep sf st))) \<and>
         st_log (scan_loop e host s ep sf st) =
           st_log st @ [starting_line host s ep]
           @ concat (map (chunk_events e host) (chunks sf ep))
           @ report_lines e (st_results (scan_loop e host s ep sf st))"
proof -
  let ?cs = "min 1000 (ep - sf + 1)"
  let ?starts = "map (\<lambda>i. sf + int i * ?cs) [0..<Suc (nat ((ep - sf) div ?cs))]"
  let ?st1 = "emit [starting_line host s ep] st"
  let ?st2 = "fold (scan_chunk e host ?cs ep) ?starts ?st1"
  have pos: "0 < ?cs" using assms(2) by simp
  have rng: "py_range sf (ep + 1) ?cs = Some ?starts" by (rule py_range_up [OF pos assms(2)])
  have ck: "chunks sf ep = map (chunk_ports ?cs ep) ?starts"
    by (simp only: chunks_def Let_def rng option.case)
  have r1: "st_raised ?st1 = None" using assms(3) by (simp add: emit_def)
  have d: "distinct (concat (map (chunk_ports ?cs ep) ?starts))"
    using concat_chunks [OF assms(2)] by (simp only: ck [symmetric]) simp
  have i: "set (concat (map (chunk_ports ?cs ep) ?starts)) \<inter> fst ` set (st_results ?st1) = {}"
    using assms(4) by (simp add: emit_def)
  note run = scan_chunks_run [OF assms(1) r1 d i]
  have loop: "scan_loop e host s ep sf st = report e ?st2"
    using run by (simp only: scan_loop_def Let_def rng option.case) simp
  have res: "st_results (report e ?st2) = st_results ?st2"
    by (simp add: report_def emit_def)
  have m1: "concat (map (\<lambda>port. finish_order e host (chunk_ports ?cs ep port)) ?starts) =
            concat (map (finish_order e host) (chunks sf ep))"
    by (simp only: ck map_map comp_def)
  have m2: "concat (map (\<lambda>port. chunk_events e host (chunk_ports ?cs ep port)) ?starts) =
            concat (map (chunk_events e host) (chunks sf ep))"
    by (simp only: ck map_map comp_def)
  have a: "st_raised (report e ?st2) = None" using run by (simp add: report_def emit_def)
  have b: "map fst (st_results (report e ?st2)) = concat (map (finish_order e host) (chunks sf ep))"
    using run assms(4) by (simp only: res m1 [symmetric]) (simp add: emit_def)
  have c: "st_retval (report e ?st2) = Some (length (st_results (report e ?st2)))"
    by (simp add: report_def emit_def)
  have l: "st_log (report e ?st2) =
           st_log st @ [starting_line host s ep]
           @ concat (map (chunk_events e host) (chunks sf ep))
           @ report_lines e (st_results (report e ?st2))"
    using run by (simp only: res m2 [symmetric]) (simp add: report_def emit_def)
  from a b c l show ?thesis by (simp only: loop) 
qed


lemma length_chunks:
  assumes "sf \<le> e"
  shows "length (chunks sf e) = (nat (e - sf + 1) + 999) div 1000"
proof (cases "e - sf + 1 \<le> 1000")
  case True
  then have cs: "min 1000 (e - sf + 1) = e - sf + 1" by simp
  have "(e - sf) div (e - sf + 1) = 0" using assms by (simp add: div_pos_pos_trivial)
  then have "length (chunks sf e) = 1" by (simp add: chunks_eq [OF assms] cs)
  moreover have "(nat (e - sf + 1) + 999) div 1000 = 1" using True assms by simp
  ultimately show ?thesis by simp
next
  case False
  then have cs: "min 1000 (e - sf + 1) = 1000" by simp
  have "length (chunks sf e) = Suc (nat ((e - sf) div 1000))"
    by (simp add: chunks_eq [OF assms] cs)
  also have "\<dots> = (nat (e - sf + 1) + 999) div 1000" using False assms by linarith
  finally show ?thesis .
qed

lemma several_chunks_size:
  assumes "sf \<le> e" and "0 < nat ((e - sf) div min 1000 (e - sf + 1))"
  shows "min 1000 (e - sf + 1) = 1000"
proof (rule ccontr)
  assume "min 1000 (e - sf + 1) \<noteq> 1000"
  then have cs: "min 1000 (e - sf + 1) = e - sf + 1" by simp
  have "(e - sf) div (e - sf + 1) = 0" using assms(1) by (simp add: div_pos_pos_trivial)
  with assms(2) show False by (simp add: cs)
qed

lemma full_chunk_length:
  assumes "sf \<le> e" and "Suc i < length (chunks sf e)"
  shows "length (chunks sf e ! i) = 1000"
proof -
  let ?cs = "min 1000 (e - sf + 1)"
  from assms(2) have lt: "i < nat ((e - sf) div ?cs)" by (simp add: chunks_eq [OF assms(1)])
  then have "0 < nat ((e - sf) div ?cs)" by simp
  from several_chunks_size [OF assms(1) this] have cs: "?cs = 1000" .
  have "chunks sf e ! i = chunk_ports ?cs e (sf + int i * ?cs)"
    using lt by (simp add: chunks_eq [OF assms(1)] del: upt_Suc)
  also have "\<dots> = [sf + int i * ?cs .. sf + int i * ?cs + ?cs - 1]"
    by (rule chunk_ports_full [OF chunk_size_pos [OF assms(1)] assms(1) lt])
  finally show ?thesis by (simp add: cs)
qed

lemma last_chunk_length:
  assumes "sf \<le> e"
  shows "length (last (chunks sf e)) = nat (e - sf + 1) - 1000 * (length (chunks sf e) - 1)"
proof -
  define cs where "cs = min 1000 (e - sf + 1)"
  define q where "q = nat ((e - sf) div cs)"
  have pos: "0 < cs" using assms by (simp add: cs_def)
  have ck: "chunks sf e = map (\<lambda>i. chunk_ports cs e (sf + int i * cs)) [0..<Suc q]"
    unfolding cs_def q_def by (rule chunks_eq [OF assms])
  have len: "length (chunks sf e) - 1 = q" by (simp add: ck)
  have "last (chunks sf e) = chunk_ports cs e (sf + int q * cs)"
    by (simp add: ck last_map del: upt_Suc)
  also have "\<dots> = [sf + int q * cs .. e]"
    unfolding q_def by (rule chunk_ports_last [OF pos assms])
  finally have l: "length (last (chunks sf e)) = nat (e - (sf + int q * cs) + 1)" by simp
  show ?thesis
  proof (cases "q = 0")
    case True
    then show ?thesis unfolding len l by simp
  next
    case False
    then have "0 < nat ((e - sf) div min 1000 (e - sf + 1))" by (simp add: q_def cs_def)
    from several_chunks_size [OF assms this] have c: "cs = 1000" by (simp add: cs_def)
    have "nat (e - (sf + int q * 1000) + 1) = nat (e - sf + 1) - 1000 * q" by linarith
    then show ?thesis unfolding len l c .
  qed
qed

lemma chunk_length_le:
  assumes "sf \<le> e" and "c \<in> set (chunks sf e)"
  shows "length c \<le> nat (min 1000 (e - sf + 1))"
proof -
  from assms(2) obtain port where "c = chunk_ports (min 1000 (e - sf + 1)) e port"
    by (auto simp: chunks_eq [OF assms(1)] simp del: upt_Suc)
  then show ?thesis by (simp add: chunk_ports_def Let_def)
qed

lemma before_append: "before a b xs \<Longrightarrow> before a b (pre @ xs @ post)"
proof -
  assume "before a b xs"
  then obtain us vs ws where "xs = us @ a # vs @ b # ws" by (auto simp: before_def)
  then have "pre @ xs @ post = (pre @ us) @ a # vs @ b # (ws @ post)" by simp
  then show ?thesis unfolding before_def by blast
qed

lemma before_concat:
  assumes "i < j" and "j < length segs" and "a \<in> set (segs ! i)" and "b \<in> set (segs ! j)"
  shows "before a b (concat segs)"
proof -
  from assms(3) obtain a1 a2 where sa: "segs ! i = a1 @ a # a2" by (auto simp: in_set_conv_decomp)
  from assms(4) obtain b1 b2 where sb: "segs ! j = b1 @ b # b2" by (auto simp: in_set_conv_decomp)
  have j: "segs = take j segs @ segs ! j # drop (Suc j) segs"
    using assms(2) by (rule id_take_nth_drop)
  have "i < length (take j segs)" using assms(1,2) by simp
  then have "take j segs = take i (take j segs) @ take j segs ! i # drop (Suc i) (take j segs)"
    by (rule id_take_nth_drop)
  then have i: "take j segs = take i segs @ segs ! i # drop (Suc i) (take j segs)"
    using assms(1) by (simp add: min_def)
  have "concat segs = concat (take j segs) @ segs ! j @ concat (drop (Suc j) segs)"
    by (subst j) simp
  also have "concat (take j segs) =
               concat (take i segs) @ segs ! i @ concat (drop (Suc i) (take j segs))"
    by (subst i) simp
  finally have "concat segs =
      (concat (take i segs) @ a1) @ a # (a2 @ concat (drop (Suc i) (take j segs)) @ b1) @ b #
      (b2 @ concat (drop (Suc j) segs))"
    by (simp add: sa sb)
  then show ?thesis unfolding before_def by blast
qed

lemma scan_ports_run:
  assumes "resolve e host = (evs, Found addr)" and "never_cancelled e addr" and "sf \<le> ep"
  shows "st_raised (scan_ports e host s ep sf) = None \<and>
         map fst (st_results (scan_ports e host s ep sf)) =
           concat (map (finish_order e addr) (chunks sf ep)) \<and>
         st_retval (scan_ports e host s ep sf) =
           Some (length (st_results (scan_ports e host s ep sf))) \<and>
         st_log (scan_ports e host s ep sf) =
           evs @ [starting_line addr s ep]
           @ concat (map (chunk_events e addr) (chunks sf ep))
           @ report_lines e (st_results (scan_ports e host s ep sf))"
proof -
  have eq: "scan_ports e host s ep sf = scan_loop e addr s ep sf (emit evs initial_state)"
    using assms(1) by (simp add: scan_ports_def)
  have r: "st_raised (emit evs initial_state) = None"
    and k: "st_results (emit evs initial_state) = []"
    and l: "st_log (emit evs initial_state) = evs"
    by (simp_all add: emit_def initial_state_def)
  from scan_loop_run [OF assms(2,3) r k, of s] show ?thesis
    by (simp only: eq l)
qed

subsection \<open>The chunks\<close>

lemma ceiling_thousand: "0 \<le> r \<Longrightarrow> int ((nat r + 999) div 1000) = \<lceil>real_of_int r / 1000\<rceil>"
proof -
  assume "0 \<le> r"
  have "\<lceil>real_of_int r / 1000\<rceil> = - (- r div 1000)"
    using ceiling_divide_eq_div [of r 1000] by simp
  also have "\<dots> = int ((nat r + 999) div 1000)" using \<open>0 \<le> r\<close> by linarith
  finally show ?thesis by simp
qed

lemma chunks_1_2500: "chunks 1 2500 = [[1..1000], [1001..2000], [2001..2500]]"
  by (simp add: chunks_def py_range_def range_len_def chunk_ports_def upt_rec
        del: upto_rec_numeral)

lemma plain_never_cancelled: "never_cancelled plain_env host"
  by (simp add: never_cancelled_def plain_env_def)

text \<open>
  C5. A scan of the ports from \<open>sf\<close> to \<open>ep\<close>, \<open>R = ep - sf + 1\<close> of them, that no
  cancellation cuts short goes through chunks that are contiguous and together are
  exactly that range, none longer than \<open>min(1000, R)\<close>; there are \<open>ceil(R / 1000)\<close> of
  them, every one but the last has exactly 1000 ports and the last has the remainder.
  The chunks are processed one after the other: what is observed is the tasks of the
  first chunk being created and then finishing, then those of the second, and so on,
  so every task of a chunk has finished before any task of a later chunk is created.
\<close>

theorem scan_ports_batches:
  assumes "resolve e host = (evs, Found addr)" and "never_cancelled e addr" and "sf \<le> ep"
  shows "concat (chunks sf ep) = [sf .. ep] \<and>
         int (length (chunks sf ep)) = \<lceil>real_of_int (ep - sf + 1) / 1000\<rceil> \<and>
         (\<forall>c \<in> set (chunks sf ep). length c \<le> nat (min 1000 (ep - sf + 1))) \<and>
         (\<forall>i. Suc i < length (chunks sf ep) \<longrightarrow> length (chunks sf ep ! i) = 1000) \<and>
         length (last (chunks sf ep)) =
           nat (ep - sf + 1) - 1000 * (length (chunks sf ep) - 1) \<and>
         st_log (scan_ports e host s ep sf) =
           evs @ [starting_line addr s ep]
           @ concat (map (chunk_events e addr) (chunks sf ep))
           @ report_lines e (st_results (scan_ports e host s ep sf)) \<and>
         (\<forall>i j p q. i < j \<and> j < length (chunks sf ep) \<and>
                    p \<in> set (chunks sf ep ! i) \<and> q \<in> set (chunks sf ep ! j) \<longrightarrow>
            before (Done p) (Launch addr q scan_port_timeout_default)
              (st_log (scan_ports e host s ep sf)))"
proof -
  have a: "concat (chunks sf ep) = [sf .. ep]" by (rule concat_chunks [OF assms(3)])
  have b: "int (length (chunks sf ep)) = \<lceil>real_of_int (ep - sf + 1) / 1000\<rceil>"
    using assms(3) by (simp only: length_chunks [OF assms(3)] ceiling_thousand)
  have c: "\<forall>c \<in> set (chunks sf ep). length c \<le> nat (min 1000 (ep - sf + 1))"
    using chunk_length_le [OF assms(3)] by blast
  have d: "\<forall>i. Suc i < length (chunks sf ep) \<longrightarrow> length (chunks sf ep ! i) = 1000"
    using full_chunk_length [OF assms(3)] by blast
  have f: "length (last (chunks sf ep)) =
             nat (ep - sf + 1) - 1000 * (length (chunks sf ep) - 1)"
    by (rule last_chunk_length [OF assms(3)])
  from scan_ports_run [OF assms] have g: "st_log (scan_ports e host s ep sf) =
           evs @ [starting_line addr s ep]
           @ concat (map (chunk_events e addr) (chunks sf ep))
           @ report_lines e (st_results (scan_ports e host s ep sf))" by blast
  have h: "before (Done p) (Launch addr q scan_port_timeout_default)
              (st_log (scan_ports e host s ep sf))"
    if "i < j" "j < length (chunks sf ep)" "p \<in> set (chunks sf ep ! i)"
       "q \<in> set (chunks sf ep ! j)" for i j p q
  proof -
    let ?segs = "map (chunk_events e addr) (chunks sf ep)"
    have i: "i < length (chunks sf ep)" using that(1,2) by simp
    have "Done p \<in> set (?segs ! i)"
      using that(3) i by (simp add: chunk_events_def finish_order_def)
    moreover have "Launch addr q scan_port_timeout_default \<in> set (?segs ! j)"
      using that(2,4) by (simp add: chunk_events_def)
    moreover have "j < length ?segs" using that(2) by simp
    ultimately have "before (Done p) (Launch addr q scan_port_timeout_default) (concat ?segs)"
      using that(1) by (blast intro: before_concat)
    from before_append [OF this, of "evs @ [starting_line addr s ep]"
         "report_lines e (st_results (scan_ports e host s ep sf))"]
    show ?thesis by (simp only: g append_assoc)
  qed
  from a b c d f g h show ?thesis by blast
qed

theorem scan_ports_batches_witness:
  "resolve plain_env ''10.0.0.1'' = ([], Found ''10.0.0.1'') \<and>
   never_cancelled plain_env ''10.0.0.1'' \<and> (1::int) \<le> 2500 \<and>
   length (chunks 1 2500) = 3 \<and>
   length (chunks 1 2500 ! 0) = 1000 \<and>
   length (chunks 1 2500 ! 1) = 1000 \<and>
   length (last (chunks 1 2500)) = 500 \<and>
   before (Done 1000) (Launch ''10.0.0.1'' 1001 1)
     (st_log (scan_ports plain_env ''10.0.0.1'' 1 2500 1))"
proof -
  have h1: "resolve plain_env ''10.0.0.1'' = ([], Found ''10.0.0.1'')"
    by (simp add: resolve_def plain_env_def)
  have h2: "never_cancelled plain_env ''10.0.0.1''" by (rule plain_never_cancelled)
  have h3: "(1::int) \<le> 2500" by simp
  note t = scan_ports_batches [OF h1 h2 h3, of 1]
  have "int (length (chunks 1 2500)) = \<lceil>real_of_int (2500 - 1 + 1) / 1000\<rceil>" using t by blast
  also have "\<dots> = 3" by (simp add: ceiling_eq_iff)
  finally have n: "length (chunks 1 2500) = 3" by simp
  have a: "length (chunks 1 2500 ! 0) = 1000" "length (chunks 1 2500 ! 1) = 1000"
    using t n by simp_all
  have b: "length (last (chunks 1 2500)) = 500" using t n by simp
  have m0: "(1000::int) \<in> set (chunks 1 2500 ! 0)"
    by (simp add: chunks_1_2500 del: upto_rec_numeral)
  have m1: "(1001::int) \<in> set (chunks 1 2500 ! 1)"
    by (simp add: chunks_1_2500 del: upto_rec_numeral)
  have "(0::nat) < 1 \<and> 1 < length (chunks 1 2500) \<and>
        (1000::int) \<in> set (chunks 1 2500 ! 0) \<and> (1001::int) \<in> set (chunks 1 2500 ! 1)"
    using n m0 m1 by simp
  with t have "before (Done 1000) (Launch ''10.0.0.1'' 1001 scan_port_timeout_default)
     (st_log (scan_ports plain_env ''10.0.0.1'' 1 2500 1))"
    by blast
  with h1 h2 n a b show ?thesis by (simp add: scan_port_timeout_default_def)
qed

subsection \<open>What a run can be observed to do\<close>

lemma await_task_log_all:
  assumes "\<And>p. P (Done p)" and "\<forall>ev \<in> set (st_log st). P ev"
  shows "\<forall>ev \<in> set (st_log (await_task e host p st)). P ev"
  using assms by (auto simp: await_task_def emit_def split: prod.splits option.splits)

lemma await_tasks_log_all:
  assumes "\<And>p. P (Done p)"
  shows "\<forall>ev \<in> set (st_log st). P ev \<Longrightarrow>
         \<forall>ev \<in> set (st_log (fold (await_task e host) ps st)). P ev"
proof (induction ps arbitrary: st)
  case Nil
  then show ?case by simp
next
  case (Cons p ps)
  from await_task_log_all [of P st e host p, OF assms Cons.prems]
  have "\<forall>ev \<in> set (st_log (await_task e host p st)). P ev" .
  from Cons.IH [OF this] show ?case by simp
qed

lemma scan_chunk_log_all:
  assumes "\<And>p. P (Done p)" and "\<And>p. P (Launch host p scan_port_timeout_default)"
    and "\<forall>ev \<in> set (st_log st). P ev"
  shows "\<forall>ev \<in> set (st_log (scan_chunk e host cs ep port st)). P ev"
proof (cases "st_raised st = None")
  case True
  let ?tasks = "chunk_ports cs ep port"
  let ?st1 = "emit (map (\<lambda>p. Launch host p scan_port_timeout_default) ?tasks) st"
  have "\<forall>ev \<in> set (st_log ?st1). P ev" using assms(2,3) by (auto simp: emit_def)
  from await_tasks_log_all [of P ?st1 e host, OF assms(1) this] True
  show ?thesis by (simp add: scan_chunk_def Let_def)
next
  case False
  with assms(3) show ?thesis by (simp add: scan_chunk_def)
qed

lemma scan_chunks_log_all:
  assumes "\<And>p. P (Done p)" and "\<And>p. P (Launch host p scan_port_timeout_default)"
  shows "\<forall>ev \<in> set (st_log st). P ev \<Longrightarrow>
         \<forall>ev \<in> set (st_log (fold (scan_chunk e host cs ep) starts st)). P ev"
proof (induction starts arbitrary: st)
  case Nil
  then show ?case by simp
next
  case (Cons port starts)
  from scan_chunk_log_all [of P host st e cs ep port, OF assms Cons.prems]
  have "\<forall>ev \<in> set (st_log (scan_chunk e host cs ep port st)). P ev" .
  from Cons.IH [OF this] show ?case by simp
qed

lemma report_lines_print: "ev \<in> set (report_lines e results) \<Longrightarrow> \<exists>l. ev = Print l"
  by (auto simp: report_lines_def)

lemma scan_loop_log_all:
  assumes "\<And>p. P (Done p)" and "\<And>p. P (Launch host p scan_port_timeout_default)"
    and "\<And>l. P (Print l)" and "\<forall>ev \<in> set (st_log st). P ev"
  shows "\<forall>ev \<in> set (st_log (scan_loop e host s ep sf st)). P ev"
proof -
  let ?st1 = "emit [starting_line host s ep] st"
  have one: "\<forall>ev \<in> set (st_log ?st1). P ev"
    using assms(3,4) by (auto simp: emit_def starting_line_def)
  show ?thesis
  proof (cases "py_range sf (ep + 1) (min 1000 (ep - sf + 1))")
    case None
    with one show ?thesis by (simp add: scan_loop_def Let_def)
  next
    case (Some starts)
    let ?st2 = "fold (scan_chunk e host (min 1000 (ep - sf + 1)) ep) starts ?st1"
    from scan_chunks_log_all [of P host ?st1 e _ ep starts, OF assms(1,2) one]
    have two: "\<forall>ev \<in> set (st_log ?st2). P ev" .
    have "\<forall>ev \<in> set (st_log (report e ?st2)). P ev"
      using two assms(3) by (auto simp: report_def emit_def dest: report_lines_print)
    with two Some show ?thesis by (simp add: scan_loop_def Let_def)
  qed
qed

lemma scan_ports_log_all:
  assumes "\<And>p. P (Done p)" and "\<And>h p. P (Launch h p scan_port_timeout_default)"
    and "\<And>l. P (Print l)" and "\<And>h. P (Resolve h)"
  shows "\<forall>ev \<in> set (st_log (scan_ports e host s ep sf)). P ev"
proof (cases "resolve e host")
  case (Pair evs r)
  have evs: "\<forall>ev \<in> set evs. P ev"
    using Pair assms(4) by (auto simp: resolve_def split: if_splits)
  show ?thesis
  proof (cases r)
    case Gaierror
    with Pair evs assms(3) show ?thesis
      by (auto simp: scan_ports_def emit_def initial_state_def)
  next
    case (LookupRaised x)
    with Pair evs show ?thesis
      by (auto simp: scan_ports_def emit_def initial_state_def)
  next
    case (Found addr)
    have "\<forall>ev \<in> set (st_log (emit evs initial_state)). P ev"
      using evs by (simp add: emit_def initial_state_def)
    from scan_loop_log_all [of P addr "emit evs initial_state" e s ep sf, OF assms(1,2,3) this]
    show ?thesis using Pair Found by (simp add: scan_ports_def)
  qed
qed

lemma asyncio_run_prefix: "set (fst (asyncio_run st sigint)) \<subseteq> set (st_log st)"
  by (auto simp: asyncio_run_def Let_def split: option.splits dest: in_set_takeD)

lemma prompt_loop_log_all:
  assumes "\<And>p. P (Done p)" and "\<And>h p. P (Launch h p scan_port_timeout_default)"
    and "\<And>l. P (Print l)" and "\<And>h. P (Resolve h)" and "\<And>l. P (Prompt l)"
  shows "\<forall>ev \<in> set (fst (prompt_loop e a cp sigint2 answers)). P ev"
proof (induction answers)
  case Nil
  show ?case using assms(5) by simp
next
  case (Cons k answers)
  show ?case
  proof (cases k)
    case CtrlC
    then show ?thesis using assms(3,5) by simp
  next
    case (Line l)
    have run: "\<forall>ev \<in> set (fst (asyncio_run (scan_ports e (arg_host a) cp (arg_end_port a) cp) sigint2)). P ev"
      using scan_ports_log_all [of P e "arg_host a" cp "arg_end_port a" cp, OF assms(1,2,3,4)]
        asyncio_run_prefix by blast
    show ?thesis using Line Cons.IH run assms(3,5)
      by (auto simp: Let_def split: prod.splits run_end.splits)
  qed
qed

lemma main_log_all:
  assumes "\<And>p. P (Done p)" and "\<And>h p. P (Launch h p scan_port_timeout_default)"
    and "\<And>l. P (Print l)" and "\<And>h. P (Resolve h)" and "\<And>l. P (Prompt l)"
  shows "\<forall>ev \<in> set (fst (main e a0 sigint answers sigint2)). P ev"
proof (cases "apply_common a0")
  case None
  then show ?thesis by (simp add: main_def)
next
  case (Some a)
  have run: "\<forall>ev \<in> set (fst (asyncio_run (scan_ports e (arg_host a) (arg_start_port a)
               (arg_end_port a) start_from_port_default) sigint)). P ev"
    using scan_ports_log_all [of P e "arg_host a" "arg_start_port a" "arg_end_port a"
        start_from_port_default, OF assms(1,2,3,4)]
      asyncio_run_prefix by blast
  note pl = prompt_loop_log_all [of P e a "arg_start_port a" sigint2 answers, OF assms]
  show ?thesis using Some run pl assms(3)
    by (auto simp: main_def Let_def split: prod.splits run_end.splits)
qed

subsection \<open>The ports a run probes\<close>

lemma launched_append: "launched (xs @ ys) = launched xs @ launched ys"
  by (simp add: launched_def)

lemma launched_chunk_events: "launched (chunk_events e host tasks) = tasks"
proof -
  have a: "launched (map (\<lambda>p. Launch host p scan_port_timeout_default) tasks) = tasks"
    by (induction tasks) (simp_all add: launched_def)
  have b: "launched (map Done ps) = []" for ps
    by (induction ps) (simp_all add: launched_def)
  show ?thesis by (simp add: chunk_events_def launched_append a b)
qed

lemma launched_chunks: "launched (concat (map (chunk_events e host) cks)) = concat cks"
  by (induction cks) (simp_all add: launched_append launched_chunk_events, simp add: launched_def)

lemma launched_report_lines: "launched (report_lines e results) = []"
proof -
  have "launched (map (\<lambda>port. Print (f port)) ps) = []" for f and ps :: "int list"
    by (induction ps) (simp_all add: launched_def)
  then show ?thesis by (simp add: report_lines_def launched_append) (simp add: launched_def)
qed

lemma launched_resolve: "launched (fst (resolve e host)) = []"
  by (simp add: resolve_def launched_def)

lemma scan_ports_launched:
  assumes "resolve e host = (evs, Found addr)" and "never_cancelled e addr" and "sf \<le> ep"
  shows "launched (st_log (scan_ports e host s ep sf)) = [sf .. ep]"
proof -
  from scan_ports_run [OF assms] have "st_log (scan_ports e host s ep sf) =
           evs @ [starting_line addr s ep]
           @ concat (map (chunk_events e addr) (chunks sf ep))
           @ report_lines e (st_results (scan_ports e host s ep sf))" by blast
  moreover have "launched evs = []" using launched_resolve [of e host] assms(1) by simp
  moreover have "launched [starting_line addr s ep] = []"
    by (simp add: launched_def starting_line_def)
  ultimately show ?thesis
    by (simp only: launched_append launched_chunks launched_report_lines
          concat_chunks [OF assms(3)]) simp
qed

lemma scan_ports_keys:
  assumes "resolve e host = (evs, Found addr)" and "never_cancelled e addr" and "sf \<le> ep"
  shows "set (map fst (st_results (scan_ports e host s ep sf))) = {sf .. ep}"
    and "distinct (map fst (st_results (scan_ports e host s ep sf)))"
    and "length (st_results (scan_ports e host s ep sf)) = nat (ep - sf + 1)"
proof -
  from scan_ports_run [OF assms] have k: "map fst (st_results (scan_ports e host s ep sf)) =
           concat (map (finish_order e addr) (chunks sf ep))" by blast
  have m: "mset (concat (map (finish_order e addr) cks)) = mset (concat cks)" for cks
    by (induction cks) (simp_all add: finish_order_def)
  have "mset (map fst (st_results (scan_ports e host s ep sf))) = mset [sf .. ep]"
    by (simp only: k m concat_chunks [OF assms(3)])
  then have s: "set (map fst (st_results (scan_ports e host s ep sf))) = set [sf .. ep]"
    and d: "distinct (map fst (st_results (scan_ports e host s ep sf))) = distinct [sf .. ep]"
    and l: "length (map fst (st_results (scan_ports e host s ep sf))) = length [sf .. ep]"
    by (metis set_mset_mset, metis mset_eq_imp_distinct_iff, metis size_mset)
  from s show "set (map fst (st_results (scan_ports e host s ep sf))) = {sf .. ep}" by simp
  from d show "distinct (map fst (st_results (scan_ports e host s ep sf)))" by simp
  from l show "length (st_results (scan_ports e host s ep sf)) = nat (ep - sf + 1)" by simp
qed

lemma main_uninterrupted:
  assumes "apply_common a0 = Some a"
    and "1 \<le> arg_start_port a" and "arg_end_port a \<le> 65535"
    and "arg_start_port a \<le> arg_end_port a"
    and "st_raised (scan_ports e (arg_host a) (arg_start_port a) (arg_end_port a)
                      start_from_port_default) = None"
  shows "main e a0 None answers sigint2 =
           (st_log (scan_ports e (arg_host a) (arg_start_port a) (arg_end_port a)
                      start_from_port_default), Returned)"
  using assms by (simp add: main_def asyncio_run_def Let_def)

subsection \<open>Runs of the program\<close>

lemma plain_resolve_literal: "resolve plain_env ''10.0.0.1'' = ([], Found ''10.0.0.1'')"
  by (simp add: resolve_def plain_env_def)

text \<open>
  C1 says that a completed scan of the range from s to e holds exactly one entry for
  each port of the range and none outside it. \<^verbatim>\<open>main\<close> calls
  \<^verbatim>\<open>scan_ports(args.host, args.start_port, args.end_port)\<close> and leaves
  \<^verbatim>\<open>start_from_port\<close> at its default 0, which is where the loop starts. The command
  line \<^verbatim>\<open>scanner.py 10.0.0.1 -s 2 -e 3\<close>, run to completion, creates tasks for the
  ports 0, 1, 2 and 3, holds four entries and prints that four ports were scanned: the
  range has two. (The lemma \<open>scan_ports_keys\<close> above is the claim for the call that
  does pass the start, as the resumed run does.)
\<close>

theorem first_scan_starts_at_zero:
  "main plain_env (cmdline ''10.0.0.1'' 2 3) None [] None =
     (st_log (scan_ports plain_env ''10.0.0.1'' 2 3 start_from_port_default), Returned) \<and>
   map fst (st_results (scan_ports plain_env ''10.0.0.1'' 2 3 start_from_port_default)) =
     [0, 1, 2, 3] \<and>
   launched (fst (main plain_env (cmdline ''10.0.0.1'' 2 3) None [] None)) = [0, 1, 2, 3] \<and>
   ''Total ports scanned: 4'' \<in> set (printed (fst (main plain_env (cmdline ''10.0.0.1'' 2 3) None [] None)))"
  by code_simp

text \<open>
  C2 says that a scan interrupted after port c and resumed scans the rest of the range
  only, probes no port twice and ends with the entries of an uninterrupted scan.
  \<^verbatim>\<open>main\<close> sets \<^verbatim>\<open>current_port = args.start_port\<close> before the scan and never
  changes it, so the resumed call starts again at the start port, with a new dict.
  For \<^verbatim>\<open>scanner.py 10.0.0.1 -s 1 -e 3\<close>, interrupted when the tasks of the ports 0, 1
  and 2 have finished and answered with c: the resumed run creates tasks for the ports
  1, 2 and 3, so 1 and 2 are probed twice, and its dict has the ports 1, 2, 3 where
  the uninterrupted run has 0, 1, 2, 3.
\<close>

theorem resume_rescans_from_start:
  "fst (asyncio_run (scan_ports plain_env ''10.0.0.1'' 1 3 start_from_port_default) (Some 8)) =
     [starting_line ''10.0.0.1'' 1 3,
      Launch ''10.0.0.1'' 0 1, Launch ''10.0.0.1'' 1 1, Launch ''10.0.0.1'' 2 1,
      Launch ''10.0.0.1'' 3 1, Done 0, Done 1, Done 2] \<and>
   fst (main plain_env (cmdline ''10.0.0.1'' 1 3) (Some 8) [Line ''c''] None) =
     fst (asyncio_run (scan_ports plain_env ''10.0.0.1'' 1 3 start_from_port_default) (Some 8))
     @ [Print (newline # ''Scan interrupted.''), Prompt question, Print ''Resuming scan...'']
     @ st_log (scan_ports plain_env ''10.0.0.1'' 1 3 1) \<and>
   launched (st_log (scan_ports plain_env ''10.0.0.1'' 1 3 1)) = [1, 2, 3] \<and>
   launched (fst (main plain_env (cmdline ''10.0.0.1'' 1 3) (Some 8) [Line ''c''] None)) =
     [0, 1, 2, 3, 1, 2, 3] \<and>
   \<not> distinct (launched (fst (main plain_env (cmdline ''10.0.0.1'' 1 3) (Some 8) [Line ''c''] None))) \<and>
   map fst (st_results (scan_ports plain_env ''10.0.0.1'' 1 3 1)) = [1, 2, 3] \<and>
   map fst (st_results (scan_ports plain_env ''10.0.0.1'' 1 3 start_from_port_default)) =
     [0, 1, 2, 3]"
  by code_simp

text \<open>
  C8 says that with \<^verbatim>\<open>-o\<close> the program writes the results to the named file, one
  line for each port. \<^verbatim>\<open>main\<close> never reads \<^verbatim>\<open>args.output\<close> and never calls
  \<^verbatim>\<open>save_results\<close>. For \<^verbatim>\<open>scanner.py example.org -s 1 -e 2 -o out.txt\<close> no file is
  opened or written and the run is the run without the option;
  \<^verbatim>\<open>save_results\<close>, had it been called on the dict of that scan, would have written
  one line for each entry in the order of the dict.
\<close>

theorem output_option_ignored:
  "file_events (fst (main plain_env ((cmdline ''example.org'' 1 2)\<lparr>arg_output := Some ''out.txt''\<rparr>)
                       None [] None)) = [] \<and>
   main plain_env ((cmdline ''example.org'' 1 2)\<lparr>arg_output := Some ''out.txt''\<rparr>) None [] None =
     main plain_env (cmdline ''example.org'' 1 2) None [] None \<and>
   save_results (st_results (scan_ports plain_env ''example.org'' 1 2 start_from_port_default))
       ''out.txt'' =
     [OpenW ''out.txt'',
      Write ''out.txt'' (''Port 0: closed'' @ [newline]),
      Write ''out.txt'' (''Port 1: closed'' @ [newline]),
      Write ''out.txt'' (''Port 2: closed'' @ [newline])]"
  by code_simp

text \<open>
  C9 says that the timeout given with \<^verbatim>\<open>-t\<close> is the timeout of every probe.
  \<^verbatim>\<open>scan_ports\<close> calls \<^verbatim>\<open>scan_port(host, p, results)\<close> without a timeout and
  \<^verbatim>\<open>main\<close> never reads \<^verbatim>\<open>args.timeout\<close>, so every probe has the default 1. For
  \<^verbatim>\<open>scanner.py 10.0.0.1 -s 1 -e 2 -t 5\<close> against a host whose port 2 answers after
  three seconds, every task is created with the timeout 1 and no open port is
  reported, where a probe of port 2 with the timeout 5 records it as open.
\<close>

theorem timeout_option_ignored:
  "timeouts (fst (main slow_env ((cmdline ''10.0.0.1'' 1 2)\<lparr>arg_timeout := 5\<rparr>) None [] None)) =
     [1, 1, 1] \<and>
   ''Open ports found: 0'' \<in>
     set (printed (fst (main slow_env ((cmdline ''10.0.0.1'' 1 2)\<lparr>arg_timeout := 5\<rparr>) None [] None))) \<and>
   scan_port slow_env ''10.0.0.1'' 2 []
       (arg_timeout ((cmdline ''10.0.0.1'' 1 2)\<lparr>arg_timeout := 5\<rparr>)) =
     ([(2, EntryOpen ''Unknown'')], None) \<and>
   scan_port slow_env ''10.0.0.1'' 2 [] scan_port_timeout_default = ([(2, EntryClosed)], None)"
  by code_simp

subsection \<open>The arguments\<close>

lemma apply_common_flag:
  "arg_common a \<Longrightarrow> apply_common a = Some (a\<lparr>arg_start_port := 20, arg_end_port := 27017\<rparr>)"
  by (simp add: apply_common_def py_min_def py_max_def COMMON_PORTS_def)

lemma main_common_launched:
  assumes "arg_common a" and "resolve e (arg_host a) = (evs, Found addr)"
    and "never_cancelled e addr"
  shows "launched (fst (main e a None answers sigint2)) = [0 .. 27017]"
proof -
  let ?a = "a\<lparr>arg_start_port := 20, arg_end_port := 27017\<rparr>"
  have r: "resolve e (arg_host ?a) = (evs, Found addr)" using assms(2) by simp
  have le: "start_from_port_default \<le> arg_end_port ?a" by (simp add: start_from_port_default_def)
  from scan_ports_run [OF r assms(3) le, of "arg_start_port ?a"]
  have nr: "st_raised (scan_ports e (arg_host ?a) (arg_start_port ?a) (arg_end_port ?a)
                      start_from_port_default) = None" by blast
  have "main e a None answers sigint2 =
          (st_log (scan_ports e (arg_host ?a) (arg_start_port ?a) (arg_end_port ?a)
                      start_from_port_default), Returned)"
    by (rule main_uninterrupted [OF apply_common_flag [OF assms(1)] _ _ _ nr]) simp_all
  then show ?thesis
    using scan_ports_launched [OF r assms(3) le, of "arg_start_port ?a"]
    by (simp add: start_from_port_default_def)
qed

text \<open>
  C3 says that with \<^verbatim>\<open>--common\<close> exactly the eleven ports of the static table are
  scanned. \<^verbatim>\<open>main\<close> sorts the keys of the table but uses only their minimum and
  maximum, as the new start and end port, and the scan starts at port 0: with
  \<^verbatim>\<open>scanner.py 10.0.0.1 --common\<close> tasks are created for all 27018 ports from 0 to
  27017, port 24 among them, which is not in the table.
\<close>

theorem common_scans_whole_range:
  "launched (fst (main plain_env ((cmdline ''10.0.0.1'' 1 65535)\<lparr>arg_common := True\<rparr>)
                    None [] None)) = [0 .. 27017] \<and>
   24 \<in> set (launched (fst (main plain_env ((cmdline ''10.0.0.1'' 1 65535)\<lparr>arg_common := True\<rparr>)
                    None [] None))) \<and>
   24 \<notin> set (map fst COMMON_PORTS) \<and>
   length (launched (fst (main plain_env ((cmdline ''10.0.0.1'' 1 65535)\<lparr>arg_common := True\<rparr>)
                    None [] None))) = 27018 \<and>
   length (map fst COMMON_PORTS) = 11"
proof -
  let ?a = "(cmdline ''10.0.0.1'' 1 65535)\<lparr>arg_common := True\<rparr>"
  have c: "arg_common ?a" by simp
  have r: "resolve plain_env (arg_host ?a) = ([], Found ''10.0.0.1'')"
    by (simp add: cmdline_def plain_resolve_literal)
  have l: "launched (fst (main plain_env ?a None [] None)) = [0 .. 27017]"
    by (rule main_common_launched [OF c r plain_never_cancelled])
  show ?thesis by (simp only: l) (simp add: COMMON_PORTS_def)
qed

text \<open>
  C6, as the code has it. For every argument combination without \<^verbatim>\<open>--common\<close> whose
  start port is below 1, or whose end port is above 65535, or whose start port is
  above its end port, the program prints one validation message and returns: nothing
  else is observed, no name is resolved and no probe is issued, whatever the operator
  does.
\<close>

theorem main_rejects_bad_range:
  assumes "\<not> arg_common a"
    and "arg_start_port a < 1 \<or> arg_end_port a > 65535 \<or> arg_start_port a > arg_end_port a"
  shows "main e a sigint answers sigint2 =
           ([Print (if arg_start_port a < 1 \<or> arg_end_port a > 65535
                    then ''Port range must be between 1 and 65535.''
                    else ''Start port must be less than or equal to end port.'')],
            Returned) \<and>
         launched (fst (main e a sigint answers sigint2)) = [] \<and>
         (\<forall>ev \<in> set (fst (main e a sigint answers sigint2)). \<exists>l. ev = Print l)"
  using assms by (auto simp: main_def apply_common_def launched_def)

theorem main_rejects_bad_range_witness:
  "main plain_env (cmdline ''10.0.0.1'' 0 100) None [] None =
     ([Print ''Port range must be between 1 and 65535.''], Returned) \<and>
   main plain_env (cmdline ''10.0.0.1'' 1 65536) None [] None =
     ([Print ''Port range must be between 1 and 65535.''], Returned) \<and>
   main plain_env (cmdline ''10.0.0.1'' 9 8) None [] None =
     ([Print ''Start port must be less than or equal to end port.''], Returned)"
proof -
  have a: "\<not> arg_common (cmdline ''10.0.0.1'' s e)" for s e by (simp add: cmdline_def)
  have 1: "arg_start_port (cmdline ''10.0.0.1'' 0 100) < 1 \<or>
           arg_end_port (cmdline ''10.0.0.1'' 0 100) > 65535 \<or>
           arg_start_port (cmdline ''10.0.0.1'' 0 100) > arg_end_port (cmdline ''10.0.0.1'' 0 100)"
    by (simp add: cmdline_def)
  have 2: "arg_start_port (cmdline ''10.0.0.1'' 1 65536) < 1 \<or>
           arg_end_port (cmdline ''10.0.0.1'' 1 65536) > 65535 \<or>
           arg_start_port (cmdline ''10.0.0.1'' 1 65536) > arg_end_port (cmdline ''10.0.0.1'' 1 65536)"
    by (simp add: cmdline_def)
  have 3: "arg_start_port (cmdline ''10.0.0.1'' 9 8) < 1 \<or>
           arg_end_port (cmdline ''10.0.0.1'' 9 8) > 65535 \<or>
           arg_start_port (cmdline ''10.0.0.1'' 9 8) > arg_end_port (cmdline ''10.0.0.1'' 9 8)"
    by (simp add: cmdline_def)
  from main_rejects_bad_range [OF a 1, of plain_env None "[]" None]
    main_rejects_bad_range [OF a 2, of plain_env None "[]" None]
    main_rejects_bad_range [OF a 3, of plain_env None "[]" None]
  show ?thesis by (simp add: cmdline_def)
qed

text \<open>
  C6 as stated fails with \<^verbatim>\<open>--common\<close>, which overwrites both ports before they are
  checked: \<^verbatim>\<open>scanner.py 10.0.0.1 -s 0 -e 70000 --common\<close> has a start port below 1
  and an end port above 65535 and is scanned.
\<close>

theorem common_skips_validation:
  "arg_start_port ((cmdline ''10.0.0.1'' 0 70000)\<lparr>arg_common := True\<rparr>) < 1 \<and>
   arg_end_port ((cmdline ''10.0.0.1'' 0 70000)\<lparr>arg_common := True\<rparr>) > 65535 \<and>
   launched (fst (main plain_env ((cmdline ''10.0.0.1'' 0 70000)\<lparr>arg_common := True\<rparr>)
                    None [] None)) = [0 .. 27017]"
proof -
  let ?a = "(cmdline ''10.0.0.1'' 0 70000)\<lparr>arg_common := True\<rparr>"
  have c: "arg_common ?a" by simp
  have r: "resolve plain_env (arg_host ?a) = ([], Found ''10.0.0.1'')"
    by (simp add: cmdline_def plain_resolve_literal)
  have l: "launched (fst (main plain_env ?a None [] None)) = [0 .. 27017]"
    by (rule main_common_launched [OF c r plain_never_cancelled])
  show ?thesis by (simp only: l) (simp add: cmdline_def)
qed

subsection \<open>The host\<close>

lemma scan_ports_literal_log:
  assumes "ip_address e host"
  shows "\<forall>ev \<in> set (st_log (scan_ports e host s ep sf)).
           (\<forall>h. ev \<noteq> Resolve h) \<and> (\<forall>h p t. ev = Launch h p t \<longrightarrow> h = host)"
proof -
  let ?P = "\<lambda>ev. (\<forall>h. ev \<noteq> Resolve h) \<and> (\<forall>h p t. ev = Launch h p t \<longrightarrow> h = host)"
  have eq: "scan_ports e host s ep sf = scan_loop e host s ep sf (emit [] initial_state)"
    using assms by (simp add: scan_ports_def resolve_def)
  have "\<forall>ev \<in> set (st_log (emit [] initial_state)). ?P ev"
    by (simp add: emit_def initial_state_def)
  from scan_loop_log_all [of ?P host "emit [] initial_state" e s ep sf, OF _ _ _ this]
  show ?thesis by (simp add: eq)
qed

text \<open>
  C7, as the code has it. For a host string that is not a literal address and whose
  lookup raises \<^verbatim>\<open>socket.gaierror\<close>, \<^verbatim>\<open>scan_ports\<close> looks the name up, prints
  the failure once and returns 0 with an empty dict, and a run of \<^verbatim>\<open>main\<close> that
  passes the check of the ports and is not interrupted observes exactly that and
  returns. For every host string that is not a literal address and for which the
  lookup returns no address, however it fails, no task is created and the dict stays
  empty. For a host string that is a literal address nothing is looked up and every
  task is created for that very string.
\<close>

theorem unresolved_host_not_scanned:
  "(\<not> ip_address e host \<and> gethostbyname e host = Gaierror \<longrightarrow>
      scan_ports e host s ep sf =
        \<lparr>st_results = [], st_log = [Resolve host, Print (''Could not resolve hostname: '' @ host)],
         st_raised = None, st_retval = Some 0\<rparr> \<and>
      printed (st_log (scan_ports e host s ep sf)) = [''Could not resolve hostname: '' @ host] \<and>
      launched (st_log (scan_ports e host s ep sf)) = [] \<and>
      (\<forall>a0 a answers sigint2.
         apply_common a0 = Some a \<and> arg_host a = host \<and> 1 \<le> arg_start_port a \<and>
         arg_end_port a \<le> 65535 \<and> arg_start_port a \<le> arg_end_port a \<longrightarrow>
         main e a0 None answers sigint2 =
           ([Resolve host, Print (''Could not resolve hostname: '' @ host)], Returned))) \<and>
   (\<not> ip_address e host \<and> (\<forall>addr. gethostbyname e host \<noteq> Found addr) \<longrightarrow>
      launched (st_log (scan_ports e host s ep sf)) = [] \<and>
      st_results (scan_ports e host s ep sf) = []) \<and>
   (ip_address e host \<longrightarrow>
      resolve e host = ([], Found host) \<and>
      (\<forall>ev \<in> set (st_log (scan_ports e host s ep sf)).
         (\<forall>h. ev \<noteq> Resolve h) \<and> (\<forall>h p t. ev = Launch h p t \<longrightarrow> h = host)))"
proof (intro conjI impI)
  assume h: "\<not> ip_address e host \<and> gethostbyname e host = Gaierror"
  then show sp: "scan_ports e host s ep sf =
        \<lparr>st_results = [], st_log = [Resolve host, Print (''Could not resolve hostname: '' @ host)],
         st_raised = None, st_retval = Some 0\<rparr>"
    by (simp add: scan_ports_def resolve_def emit_def initial_state_def)
  show "printed (st_log (scan_ports e host s ep sf)) = [''Could not resolve hostname: '' @ host]"
    by (simp add: sp printed_def)
  show "launched (st_log (scan_ports e host s ep sf)) = []"
    by (simp add: sp launched_def)
  show "\<forall>a0 a answers sigint2.
         apply_common a0 = Some a \<and> arg_host a = host \<and> 1 \<le> arg_start_port a \<and>
         arg_end_port a \<le> 65535 \<and> arg_start_port a \<le> arg_end_port a \<longrightarrow>
         main e a0 None answers sigint2 =
           ([Resolve host, Print (''Could not resolve hostname: '' @ host)], Returned)"
  proof (intro allI impI)
    fix a0 a answers sigint2
    assume v: "apply_common a0 = Some a \<and> arg_host a = host \<and> 1 \<le> arg_start_port a \<and>
         arg_end_port a \<le> 65535 \<and> arg_start_port a \<le> arg_end_port a"
    have "scan_ports e host (arg_start_port a) (arg_end_port a) start_from_port_default =
        \<lparr>st_results = [], st_log = [Resolve host, Print (''Could not resolve hostname: '' @ host)],
         st_raised = None, st_retval = Some 0\<rparr>"
      using h by (simp add: scan_ports_def resolve_def emit_def initial_state_def)
    with v show "main e a0 None answers sigint2 =
           ([Resolve host, Print (''Could not resolve hostname: '' @ host)], Returned)"
      by (simp add: main_def asyncio_run_def Let_def)
  qed
next
  assume h: "\<not> ip_address e host \<and> (\<forall>addr. gethostbyname e host \<noteq> Found addr)"
  then have "launched (st_log (scan_ports e host s ep sf)) = [] \<and>
             st_results (scan_ports e host s ep sf) = []"
    by (cases "gethostbyname e host")
       (simp_all add: scan_ports_def resolve_def emit_def initial_state_def launched_def)
  then show "launched (st_log (scan_ports e host s ep sf)) = []"
    and "st_results (scan_ports e host s ep sf) = []" by simp_all
next
  assume "ip_address e host"
  then show "resolve e host = ([], Found host)" by (simp add: resolve_def)
next
  assume "ip_address e host"
  then show "\<forall>ev \<in> set (st_log (scan_ports e host s ep sf)).
         (\<forall>h. ev \<noteq> Resolve h) \<and> (\<forall>h p t. ev = Launch h p t \<longrightarrow> h = host)"
    by (rule scan_ports_literal_log)
qed

theorem unresolved_host_not_scanned_witness:
  "\<not> ip_address plain_env ''nowhere.invalid'' \<and>
   gethostbyname plain_env ''nowhere.invalid'' = Gaierror \<and>
   main plain_env (cmdline ''nowhere.invalid'' 1 1024) None [] None =
     ([Resolve ''nowhere.invalid'', Print ''Could not resolve hostname: nowhere.invalid''],
      Returned) \<and>
   launched (st_log (scan_ports plain_env ''example..com'' 1 1024 0)) = [] \<and>
   ip_address plain_env ''10.0.0.1'' \<and>
   resolve plain_env ''10.0.0.1'' = ([], Found ''10.0.0.1'') \<and>
   Resolve ''10.0.0.1'' \<notin> set (st_log (scan_ports plain_env ''10.0.0.1'' 1 1024 0))"
proof -
  have n: "\<not> ip_address plain_env ''nowhere.invalid'' \<and>
           gethostbyname plain_env ''nowhere.invalid'' = Gaierror"
    by (simp add: plain_env_def)
  have u: "\<not> ip_address plain_env ''example..com'' \<and>
           (\<forall>addr. gethostbyname plain_env ''example..com'' \<noteq> Found addr)"
    by (simp add: plain_env_def)
  have i: "ip_address plain_env ''10.0.0.1''" by (simp add: plain_env_def)
  have v: "apply_common (cmdline ''nowhere.invalid'' 1 1024) = Some (cmdline ''nowhere.invalid'' 1 1024) \<and>
           arg_host (cmdline ''nowhere.invalid'' 1 1024) = ''nowhere.invalid'' \<and>
           1 \<le> arg_start_port (cmdline ''nowhere.invalid'' 1 1024) \<and>
           arg_end_port (cmdline ''nowhere.invalid'' 1 1024) \<le> 65535 \<and>
           arg_start_port (cmdline ''nowhere.invalid'' 1 1024) \<le>
             arg_end_port (cmdline ''nowhere.invalid'' 1 1024)"
    by (simp add: apply_common_def cmdline_def)
  from unresolved_host_not_scanned [of plain_env "''nowhere.invalid''" 1 1024 0] n v
  have m: "main plain_env (cmdline ''nowhere.invalid'' 1 1024) None [] None =
            ([Resolve ''nowhere.invalid'', Print (''Could not resolve hostname: '' @ ''nowhere.invalid'')],
             Returned)"
    by blast
  from unresolved_host_not_scanned [of plain_env "''example..com''" 1 1024 0] u
  have x: "launched (st_log (scan_ports plain_env ''example..com'' 1 1024 0)) = []"
    by blast
  from unresolved_host_not_scanned [of plain_env "''10.0.0.1''" 1 1024 0] i
  have r: "resolve plain_env ''10.0.0.1'' = ([], Found ''10.0.0.1'')"
    and l: "Resolve ''10.0.0.1'' \<notin> set (st_log (scan_ports plain_env ''10.0.0.1'' 1 1024 0))"
    by blast+
  from n i m x r l show ?thesis by simp
qed

text \<open>
  C7 as stated fails for a name whose lookup raises something other than
  \<^verbatim>\<open>socket.gaierror\<close>, which is all \<^verbatim>\<open>scan_ports\<close> catches. The name example..com
  is not a literal address and cannot be resolved: the lookup raises
  \<^verbatim>\<open>UnicodeError\<close>, which leaves \<^verbatim>\<open>scan_ports\<close> and \<^verbatim>\<open>main\<close> uncaught, and the
  program prints no report of the failure.
\<close>

theorem malformed_name_not_reported:
  "\<not> ip_address plain_env ''example..com'' \<and>
   gethostbyname plain_env ''example..com'' = LookupRaised (OtherException idna_error) \<and>
   main plain_env (cmdline ''example..com'' 1 1024) None [] None =
     ([Resolve ''example..com''], Uncaught (OtherException idna_error)) \<and>
   printed (fst (main plain_env (cmdline ''example..com'' 1 1024) None [] None)) = []"
proof -
  have i: "\<not> ip_address plain_env ''example..com''" by (simp add: plain_env_def)
  have g: "gethostbyname plain_env ''example..com'' = LookupRaised (OtherException idna_error)"
    by (simp add: plain_env_def)
  have sp: "scan_ports plain_env ''example..com'' 1 1024 start_from_port_default =
              \<lparr>st_results = [], st_log = [Resolve ''example..com''],
               st_raised = Some (OtherException idna_error), st_retval = None\<rparr>"
    using i g by (simp add: scan_ports_def resolve_def emit_def initial_state_def)
  have m: "main plain_env (cmdline ''example..com'' 1 1024) None [] None =
             ([Resolve ''example..com''], Uncaught (OtherException idna_error))"
    by (simp add: main_def apply_common_def cmdline_def asyncio_run_def sp)
  have "printed [Resolve ''example..com''] = []" by (simp add: printed_def)
  with i g m show ?thesis by simp
qed

subsection \<open>What no run does\<close>

text \<open>
  For every input: no run of \<^verbatim>\<open>main\<close> opens or writes a file, every task is created
  with the default timeout, and the values of \<^verbatim>\<open>-t\<close> and \<^verbatim>\<open>-o\<close> change nothing.
\<close>

lemma main_writes_no_file: "file_events (fst (main e a sigint answers sigint2)) = []"
proof -
  let ?P = "\<lambda>ev. case ev of OpenW f \<Rightarrow> False | Write f t \<Rightarrow> False | _ \<Rightarrow> True"
  have "\<forall>ev \<in> set (fst (main e a sigint answers sigint2)). ?P ev"
    by (rule main_log_all) simp_all
  then show ?thesis
    by (auto simp: file_events_def filter_empty_conv split: event.splits)
qed

lemma main_default_timeout:
  "t \<in> set (timeouts (fst (main e a sigint answers sigint2))) \<Longrightarrow> t = scan_port_timeout_default"
proof -
  let ?P = "\<lambda>ev. \<forall>h p t. ev = Launch h p t \<longrightarrow> t = scan_port_timeout_default"
  have "\<forall>ev \<in> set (fst (main e a sigint answers sigint2)). ?P ev"
    by (rule main_log_all) simp_all
  moreover assume "t \<in> set (timeouts (fst (main e a sigint answers sigint2)))"
  ultimately show ?thesis
    by (auto simp: timeouts_def split: event.splits)
qed

lemma prompt_loop_unused_args:
  "prompt_loop e (a\<lparr>arg_timeout := t, arg_output := f\<rparr>) cp sigint2 answers =
   prompt_loop e a cp sigint2 answers"
proof (induction answers)
  case Nil
  show ?case by simp
next
  case (Cons k answers)
  then show ?case by (cases k) (simp_all add: Let_def)
qed

lemma main_unused_args:
  "main e (a\<lparr>arg_timeout := t, arg_output := f\<rparr>) sigint answers sigint2 =
   main e a sigint answers sigint2"
proof -
  have ac: "apply_common (a\<lparr>arg_timeout := t, arg_output := f\<rparr>) =
            map_option (\<lambda>b. b\<lparr>arg_timeout := t, arg_output := f\<rparr>) (apply_common a)"
  proof (cases "arg_common a")
    case True
    then have "arg_common (a\<lparr>arg_timeout := t, arg_output := f\<rparr>)" by simp
    from apply_common_flag [OF this] apply_common_flag [OF True] show ?thesis by simp
  next
    case False
    then show ?thesis by (simp add: apply_common_def)
  qed
  show ?thesis
  proof (cases "apply_common a")
    case None
    then show ?thesis by (simp add: main_def ac)
  next
    case (Some b)
    then show ?thesis by (simp add: main_def ac prompt_loop_unused_args Let_def)
  qed
qed

lemma save_results_lines:
  "save_results results filename =
     OpenW filename #
     map (\<lambda>kv. Write filename (''Port '' @ str (fst kv) @ '': '' @ status (snd kv) @ [newline]))
       results"
  by (simp add: save_results_def case_prod_beta)

subsection \<open>The resumed run\<close>

text \<open>
  For every input: when the first run is interrupted and the operator answers c, the
  second run is \<^verbatim>\<open>scan_ports(args.host, current_port, args.end_port, current_port)\<close>
  with \<^verbatim>\<open>current_port\<close> still the start port, wherever the first run was cut.
\<close>

lemma answer_c: "lower (strip ''c'') = ''c''"
  by (simp add: lower_def strip_def is_space_def)

lemma main_resumed:
  assumes "apply_common a0 = Some a"
    and "1 \<le> arg_start_port a" and "arg_end_port a \<le> 65535"
    and "arg_start_port a \<le> arg_end_port a"
    and "k < length (st_log (scan_ports e (arg_host a) (arg_start_port a) (arg_end_port a)
                               start_from_port_default))"
    and "st_raised (scan_ports e (arg_host a) (arg_start_port a) (arg_end_port a)
                      (arg_start_port a)) = None"
  shows "main e a0 (Some k) (Line ''c'' # rest) None =
           (take k (st_log (scan_ports e (arg_host a) (arg_start_port a) (arg_end_port a)
                              start_from_port_default))
            @ [Print (newline # ''Scan interrupted.''), Prompt question, Print ''Resuming scan...'']
            @ st_log (scan_ports e (arg_host a) (arg_start_port a) (arg_end_port a)
                        (arg_start_port a)),
            Returned)"
  using assms by (simp add: main_def asyncio_run_def Let_def answer_c)

end
